theory Spec2Isabelle
  imports Complex_Main
begin

section \<open>The chunked spectral heat-current estimator of \<^verbatim>\<open>SHC_generate.py\<close>\<close>

text \<open>
  The theory embeds \<^verbatim>\<open>SHCPostProc.postProcess\<close>, \<^verbatim>\<open>SHCPostProc._smoothen\<close> and
  \<^verbatim>\<open>SHCPostProc._differ_direction\<close>. Python floats are modelled as HOL reals: rounding
  is not modelled, and the infinite or nan window size that a zero frequency spacing gives
  the code is a branch of \<open>window_size\<close>. A numpy 1-D array is a list, a 2-D array a list
  of rows. Every \<^verbatim>\<open>raise\<close>, \<^verbatim>\<open>sys.exit\<close> and numpy exception on the path is a constructor of
  \<open>error\<close>; the object and the file cursor at the moment of the raise are kept in the
  outcome, as they stay observable in Python.
\<close>

subsection \<open>Errors and outcomes\<close>

datatype error =
    ValueError_atoms          \<comment> \<open>line 307: mismatch in the numbers of atoms\<close>
  | SystemExit_stride         \<comment> \<open>line 312: different dump stride\<close>
  | SystemExit_ids            \<comment> \<open>line 324: ids do not match\<close>
  | IndexError                \<comment> \<open>an index out of range in a numpy array\<close>
  | ZeroDivisionError         \<comment> \<open>\<^verbatim>\<open>1.0/(n*d)\<close> in \<^verbatim>\<open>np.fft.rfftfreq\<close>\<close>
  | ValueError_reshape        \<comment> \<open>\<^verbatim>\<open>np.reshape\<close>: size does not fit the shape\<close>
  | ValueError_dot            \<comment> \<open>\<^verbatim>\<open>np.dot\<close>: shapes not aligned\<close>
  | ValueError_convolve       \<comment> \<open>\<^verbatim>\<open>np.convolve\<close>: an operand is empty\<close>
  | ValueError_arange         \<comment> \<open>\<^verbatim>\<open>np.arange(0, gwin)\<close> with \<^verbatim>\<open>gwin\<close> infinite or nan\<close>
  | ValueError_broadcast      \<comment> \<open>operands could not be broadcast together\<close>
  | AttributeError_direction  \<comment> \<open>line 293: both directions at the same time\<close>
  | AssertionError            \<comment> \<open>line 451\<close>

datatype 'a outcome = Done (final: 'a) | Raised (raised: error) (final: 'a)

subsection \<open>The numpy functions the code calls\<close>

text \<open>\<^verbatim>\<open>np.fft.rfftfreq(n, d)\<close>: \<^verbatim>\<open>val = 1.0/(n*d); return arange(0, n//2 + 1) * val\<close>.\<close>

definition rfftfreq :: "nat \<Rightarrow> real \<Rightarrow> error + real list" where
  "rfftfreq n d =
     (if real n * d = 0 then Inl ZeroDivisionError
      else Inr (map (\<lambda>i. real i * (1 / (real n * d))) [0..<n div 2 + 1]))"

text \<open>The angular frequency grid of lines 340 and 373: \<^verbatim>\<open>rfftfreq(chunkSize, d) * 2 * np.pi\<close>.\<close>

definition angular_grid :: "nat \<Rightarrow> real \<Rightarrow> error + real list" where
  "angular_grid n d =
     (case rfftfreq n d of Inl e \<Rightarrow> Inl e | Inr fs \<Rightarrow> Inr (map (\<lambda>f. f * 2 * pi) fs))"

text \<open>\<^verbatim>\<open>np.fft.rfft\<close> of one row: the bins \<open>0 .. L div 2\<close> of the discrete Fourier transform.\<close>

definition rfft :: "real list \<Rightarrow> complex list" where
  "rfft xs =
     map (\<lambda>j. \<Sum>t<length xs. complex_of_real (xs ! t) *
                  cis (- (2 * pi * real j * real t / real (length xs))))
         [0..<length xs div 2 + 1]"

text \<open>
  \<^verbatim>\<open>np.reshape(velArray, (NDOF, chunkSize), order='F')\<close>: entry \<open>(d, t)\<close> is element
  \<open>t * NDOF + d\<close> of the flat array; a size other than \<open>NDOF * chunkSize\<close> raises.
\<close>

definition reshape_F :: "real list \<Rightarrow> nat \<Rightarrow> nat \<Rightarrow> error + real list list" where
  "reshape_F velArray ndof csize =
     (if length velArray \<noteq> ndof * csize then Inl ValueError_reshape
      else Inr (map (\<lambda>d. map (\<lambda>t. velArray ! (t * ndof + d)) [0..<csize]) [0..<ndof]))"

text \<open>\<^verbatim>\<open>velFFT[idx, :]\<close> with an index array: a row index out of range raises.\<close>

definition take_rows :: "'a list list \<Rightarrow> nat list \<Rightarrow> error + 'a list list" where
  "take_rows m idx =
     (if list_all (\<lambda>i. i < length m) idx then Inr (map (\<lambda>i. m ! i) idx) else Inl IndexError)"

text \<open>\<^verbatim>\<open>target[off::3, :] = src\<close>: row \<open>3 * j + off\<close> of the target becomes row \<open>j\<close> of the source.\<close>

definition set_rows :: "nat \<Rightarrow> 'a list list \<Rightarrow> 'a list list \<Rightarrow> 'a list list" where
  "set_rows off src target =
     map (\<lambda>i. if i mod 3 = off then src ! (i div 3) else target ! i) [0..<length target]"

text \<open>\<^verbatim>\<open>m[off::3, :] = 0\<close>.\<close>

definition zero_rows :: "nat \<Rightarrow> ('a::zero) list list \<Rightarrow> 'a list list" where
  "zero_rows off m =
     map (\<lambda>i. if i mod 3 = off then replicate (length (m ! i)) 0 else m ! i) [0..<length m]"

text \<open>\<^verbatim>\<open>m[:, ki]\<close>, and \<^verbatim>\<open>np.dot\<close> of two vectors and of a matrix with a vector.\<close>

definition column :: "'a list list \<Rightarrow> nat \<Rightarrow> 'a list" where
  "column m ki = map (\<lambda>row. row ! ki) m"

definition dot_vv :: "complex list \<Rightarrow> complex list \<Rightarrow> complex" where
  "dot_vv u w = sum_list (map2 (*) u w)"

definition dot_mv :: "real list list \<Rightarrow> complex list \<Rightarrow> complex list" where
  "dot_mv k v = map (\<lambda>row. dot_vv (map complex_of_real row) v) k"

text \<open>
  \<^verbatim>\<open>np.convolve(a, v, mode='same')\<close>: the operands are swapped when \<open>v\<close> is the longer
  one, an empty operand raises, and the result has the length of the longer operand: it is
  the full convolution from index \<open>(n - 1) div 2\<close> on, \<open>n\<close> the length of the shorter one.
\<close>

definition conv_full :: "real list \<Rightarrow> real list \<Rightarrow> nat \<Rightarrow> real" where
  "conv_full a v j = (\<Sum>p\<leftarrow>[0..<length a]. if p \<le> j \<and> j - p < length v then a ! p * v ! (j - p) else 0)"

definition convolve_same :: "real list \<Rightarrow> real list \<Rightarrow> error + real list" where
  "convolve_same a v =
     (let a' = (if length v > length a then v else a);
          v' = (if length v > length a then a else v)
      in if a' = [] \<or> v' = [] then Inl ValueError_convolve
         else Inr (map (\<lambda>i. conv_full a' v' (i + (length v' - 1) div 2)) [0..<length a']))"

text \<open>
  Elementwise arithmetic of two 1-D arrays, with numpy's broadcasting: equal lengths
  combine pointwise, an operand of length 1 is stretched, anything else raises.
\<close>

definition np_broadcast2 :: "(real \<Rightarrow> real \<Rightarrow> real) \<Rightarrow> real list \<Rightarrow> real list \<Rightarrow> error + real list" where
  "np_broadcast2 g xs ys =
     (if length xs = length ys then Inr (map2 g xs ys)
      else if length xs = 1 then Inr (map (g (xs ! 0)) ys)
      else if length ys = 1 then Inr (map (\<lambda>x. g x (ys ! 0)) xs)
      else Inl ValueError_broadcast)"

subsection \<open>The object, the velocity file and the locals of \<^verbatim>\<open>postProcess\<close>\<close>

text \<open>
  The attributes of \<^verbatim>\<open>SHCPostProc\<close> that \<^verbatim>\<open>postProcess\<close> reads or writes. \<^verbatim>\<open>NL\<close> and
  \<^verbatim>\<open>NR\<close> are set by the loader to the lengths of \<^verbatim>\<open>ids_L\<close> and \<^verbatim>\<open>ids_R\<close> and never
  change. Atom indices are natural numbers (a negative index, which numpy counts from the
  end, is not modelled). Attributes that are \<^verbatim>\<open>None\<close> before the first assignment are
  the empty list here, but for \<^verbatim>\<open>SHC_error\<close>, whose \<^verbatim>\<open>None\<close> is a result.
  \<^verbatim>\<open>backupPrefix\<close> is \<^verbatim>\<open>None\<close> (its default): the checkpoint branch of lines 438 to
  443 is not modelled. \<^verbatim>\<open>chunkSize\<close> is the natural number that \<^verbatim>\<open>__init__\<close> computes.
\<close>

record SHCPostProc =
  Kij :: "real list list"
  ids_L :: "nat list"
  ids_R :: "nat list"
  inds_interface :: "int list"
  dt_md :: real
  sampleTimestep :: real
  scaleFactor :: real
  widthWin :: real
  NChunks :: int
  chunkSize :: nat
  in_plane :: bool
  out_of_plane :: bool
  velsL :: "complex list list"
  velsR :: "complex list list"
  SHC_smooth :: "real list"
  SHC_smooth2 :: "real list"
  SHC_average :: "real list"
  SHC_error :: "real list option"
  oms_fft :: "real list"

text \<open>
  The compact velocity file, tokenised: the second token of line 1, the second token of
  line 2, the integers after the comment of line 3, and the samples after the separator.
\<close>

record velocity_file =
  natoms :: int
  stride :: int
  atom_ids :: "int list"
  velocities :: "real list"

text \<open>
  The object together with the locals of \<^verbatim>\<open>postProcess\<close> that live across iterations:
  \<open>fid\<close> is the part of the sample stream not yet read.
\<close>

record frame = SHCPostProc +
  fid :: "real list"
  Nfreqs :: nat
  exitFlag :: bool

definition NL :: "'a SHCPostProc_scheme \<Rightarrow> nat" where
  "NL s = length (ids_L s)"

definition NR :: "'a SHCPostProc_scheme \<Rightarrow> nat" where
  "NR s = length (ids_R s)"

definition NDOF :: "'a SHCPostProc_scheme \<Rightarrow> nat" where
  "NDOF s = 3 * (NL s + NR s)"

datatype flow = Continue (frame_of: frame) | Break (frame_of: frame) | Throw error (frame_of: frame)

text \<open>What lines 379 to 429 leave for one chunk: the object and the two curves, or a raise.\<close>

datatype curves =
    Curves (after: frame) (smoothed: "real list") (unsmoothed: "real list")
  | Failed (failure: error) (after: frame)

subsection \<open>\<^verbatim>\<open>_smoothen\<close> (lines 247 to 266)\<close>

definition gauss_window :: "int \<Rightarrow> real list" where
  "gauss_window gwin =
     (if gwin = 1 then [1]
      else let n = map (\<lambda>j. 3 * (2 * real j / (real_of_int gwin - 1) - 1)) [0..<nat gwin];
               gauss = map (\<lambda>x. exp (- (x * x) / 2)) n
           in map (\<lambda>g. g / sum_list gauss) gauss)"

text \<open>
  Lines 249 to 252: \<^verbatim>\<open>gwin = np.ceil(widthWin / df)\<close>, made odd. \<^verbatim>\<open>postProcess\<close> passes
  \<^verbatim>\<open>df\<close> as a numpy float, so for \<^verbatim>\<open>df = 0\<close> the quotient is infinite or nan, not an
  exception: \<^verbatim>\<open>gwin\<close> then fails both tests of lines 251 and 254, and \<^verbatim>\<open>np.arange(0, gwin)\<close>
  of line 258 raises \<^verbatim>\<open>ValueError\<close> (with a Python zero the division itself raises). There is
  no window in that case. For a nonzero \<^verbatim>\<open>df\<close> the quotient and its ceiling are taken over
  the reals: where the exact quotient is an integer, or within a rounding error of one, the
  double-precision quotient of the code may round to the other side of it and the window
  of the code be two samples larger or smaller.
\<close>

definition window_size :: "real \<Rightarrow> real \<Rightarrow> error + int" where
  "window_size df wwin =
     (if df = 0 then Inl ValueError_arange
      else let gwin = \<lceil>wwin / df\<rceil> in Inr (if gwin mod 2 = 0 then gwin + 1 else gwin))"

definition smoothen :: "real list \<Rightarrow> real \<Rightarrow> real \<Rightarrow> error + real list" where
  "smoothen func df wwin =
     (case window_size df wwin of
        Inl e \<Rightarrow> Inl e
      | Inr gwin \<Rightarrow> convolve_same func (gauss_window gwin))"

subsection \<open>\<^verbatim>\<open>_differ_direction\<close> (lines 268 to 294)\<close>

definition differ_direction :: "frame \<Rightarrow> frame outcome" where
  "differ_direction f =
     (if in_plane f \<and> \<not> out_of_plane f then
        Done (f\<lparr>Kij := zero_rows 2 (Kij f),
                velsL := zero_rows 2 (velsL f),
                velsR := zero_rows 2 (velsR f)\<rparr>)
      else if out_of_plane f \<and> \<not> in_plane f then
        Done (f\<lparr>Kij := zero_rows 1 (zero_rows 0 (Kij f)),
                velsL := zero_rows 1 (zero_rows 0 (velsL f)),
                velsR := zero_rows 1 (zero_rows 0 (velsR f))\<rparr>)
      else Raised AttributeError_direction f)"

subsection \<open>One chunk (lines 379 to 451)\<close>

text \<open>
  Lines 390 to 398: \<^verbatim>\<open>self.velsL[off::3, :] = velFFT[3 * self.ids_L + off, :]\<close>, one
  assignment per axis and side, each able to raise on an atom index out of range.
\<close>

definition set_velsL :: "nat \<Rightarrow> complex list list \<Rightarrow> frame \<Rightarrow> frame outcome" where
  "set_velsL off velFFT f =
     (case take_rows velFFT (map (\<lambda>a. 3 * a + off) (ids_L f)) of
        Inl e \<Rightarrow> Raised e f
      | Inr src \<Rightarrow> Done (f\<lparr>velsL := set_rows off src (velsL f)\<rparr>))"

definition set_velsR :: "nat \<Rightarrow> complex list list \<Rightarrow> frame \<Rightarrow> frame outcome" where
  "set_velsR off velFFT f =
     (case take_rows velFFT (map (\<lambda>a. 3 * a + off) (ids_R f)) of
        Inl e \<Rightarrow> Raised e f
      | Inr src \<Rightarrow> Done (f\<lparr>velsR := set_rows off src (velsR f)\<rparr>))"

fun seq :: "('a \<Rightarrow> 'a outcome) list \<Rightarrow> 'a \<Rightarrow> 'a outcome" where
  "seq [] f = Done f"
| "seq (step # steps) f =
     (case step f of Done f' \<Rightarrow> seq steps f' | Raised e f' \<Rightarrow> Raised e f')"

text \<open>
  Lines 379 to 398: reshape, FFT along the time axis, scaling, and the two selections.
  \<^verbatim>\<open>velFFT\<close> has \<open>chunkSize div 2 + 1\<close> columns, which is \<^verbatim>\<open>Nfreqs\<close> whenever
  \<^verbatim>\<open>postProcess\<close> gets here (both are set together at lines 340 and 373), so the row
  assignments cannot fail on the shape.
\<close>

definition scaled_fft :: "real \<Rightarrow> real list list \<Rightarrow> complex list list" where
  "scaled_fft dt rows = map (\<lambda>r. map (\<lambda>z. z * complex_of_real dt) (rfft r)) rows"

definition transform_chunk :: "real list \<Rightarrow> frame \<Rightarrow> frame outcome" where
  "transform_chunk velArray f =
     (case reshape_F velArray (NDOF f) (chunkSize f) of
        Inl e \<Rightarrow> Raised e f
      | Inr rows \<Rightarrow>
          (let velFFT = scaled_fft (sampleTimestep f) rows
           in seq [set_velsL 0 velFFT, set_velsL 1 velFFT, set_velsL 2 velFFT,
                   set_velsR 0 velFFT, set_velsR 1 velFFT, set_velsR 2 velFFT]
                  (f\<lparr>velsL := replicate (3 * NL f) (replicate (Nfreqs f) 0),
                     velsR := replicate (3 * NR f) (replicate (Nfreqs f) 0)\<rparr>)))"

text \<open>
  Lines 406 to 420. \<^verbatim>\<open>np.dot\<close> raises unless \<^verbatim>\<open>Kij\<close> has \<open>3 * NL\<close> rows of \<open>3 * NR\<close>
  entries, which the loader checks; the loop body runs from bin 1 on only.
\<close>

definition Kij_fits :: "frame \<Rightarrow> bool" where
  "Kij_fits f \<longleftrightarrow> length (Kij f) = 3 * NL f \<and> list_all (\<lambda>row. length row = 3 * NR f) (Kij f)"

definition SHC_bin :: "frame \<Rightarrow> nat \<Rightarrow> real" where
  "SHC_bin f ki =
     - 2 * Im (dot_vv (column (velsL f) ki) (dot_mv (Kij f) (map cnj (column (velsR f) ki))))
       / (oms_fft f ! ki)"

definition spectral_current :: "frame \<Rightarrow> error + real list" where
  "spectral_current f =
     (if 2 \<le> Nfreqs f \<and> \<not> Kij_fits f then Inl ValueError_dot
      else Inr (map (\<lambda>x. x / (real (chunkSize f) * sampleTimestep f) * scaleFactor f)
                  (map (\<lambda>ki. if ki = 0 then 0 else SHC_bin f ki) [0..<Nfreqs f])))"

text \<open>Lines 432 to 451: the running averages, or the seeding after a short first chunk.\<close>

definition running_mean :: "nat \<Rightarrow> real list \<Rightarrow> real list \<Rightarrow> error + real list" where
  "running_mean k m x = np_broadcast2 (\<lambda>mi xi. (real k * mi + xi) / (real k + 1)) m x"

definition time_average :: "nat \<Rightarrow> real list \<Rightarrow> real list \<Rightarrow> frame \<Rightarrow> flow" where
  "time_average k SHC SHC_orig f =
     (if \<not> exitFlag f then
        (case running_mean k (SHC_smooth f) SHC of
           Inl e \<Rightarrow> Throw e f
         | Inr m \<Rightarrow>
             (case running_mean k (SHC_smooth2 f) (map (\<lambda>x. x ^ 2) SHC) of
                Inl e \<Rightarrow> Throw e (f\<lparr>SHC_smooth := m\<rparr>)
              | Inr m2 \<Rightarrow>
                  (case running_mean k (SHC_average f) SHC_orig of
                     Inl e \<Rightarrow> Throw e (f\<lparr>SHC_smooth := m, SHC_smooth2 := m2\<rparr>)
                   | Inr a \<Rightarrow>
                       Continue (f\<lparr>SHC_smooth := m, SHC_smooth2 := m2, SHC_average := a\<rparr>))))
      else if exitFlag f \<and> k = 0 then
        Break (f\<lparr>SHC_smooth := SHC, SHC_smooth2 := map (\<lambda>x. x ^ 2) SHC,
                 SHC_average := SHC_orig, NChunks := 1\<rparr>)
      else Throw AssertionError f)"

text \<open>
  Lines 379 to 429 for the chunk just read: the object after the transformation and the
  projection, with the smoothed curve \<^verbatim>\<open>SHC\<close> and the copy \<^verbatim>\<open>SHC_orig\<close> taken before
  smoothing. \<^verbatim>\<open>self.oms_fft[1]\<close> raises on a grid of one bin.
\<close>

definition chunk_curves :: "real list \<Rightarrow> frame \<Rightarrow> curves" where
  "chunk_curves velArray f =
     (case transform_chunk velArray f of
        Raised e f1 \<Rightarrow> Failed e f1
      | Done f1 \<Rightarrow>
          (case (if in_plane f1 \<or> out_of_plane f1 then differ_direction f1 else Done f1) of
             Raised e f2 \<Rightarrow> Failed e f2
           | Done f2 \<Rightarrow>
               (case spectral_current f2 of
                  Inl e \<Rightarrow> Failed e f2
                | Inr SHC_orig \<Rightarrow>
                    if length (oms_fft f2) < 2 then Failed IndexError f2
                    else
                      (case smoothen SHC_orig ((oms_fft f2 ! 1 - oms_fft f2 ! 0) / (2 * pi))
                              (widthWin f2) of
                         Inl e \<Rightarrow> Failed e f2
                       | Inr SHC \<Rightarrow> Curves f2 SHC SHC_orig))))"

text \<open>Lines 379 to 451 for the chunk just read.\<close>

definition process_chunk :: "nat \<Rightarrow> real list \<Rightarrow> frame \<Rightarrow> flow" where
  "process_chunk k velArray f =
     (case chunk_curves velArray f of
        Failed e f2 \<Rightarrow> Throw e f2
      | Curves f2 SHC SHC_orig \<Rightarrow> time_average k SHC SHC_orig f2)"

subsection \<open>The loop over chunks (lines 351 to 451)\<close>

text \<open>
  \<^verbatim>\<open>for k in np.arange(self.NChunks)\<close>: the range is fixed when the loop starts, so the loop
  is a recursion on the number of iterations left, with \<open>k\<close> counting up from 0.
  \<^verbatim>\<open>np.fromfile(fid, count=chunkSize * NDOF)\<close> returns the next samples, fewer at the end
  of the file.
\<close>

fun chunk_loop :: "nat \<Rightarrow> nat \<Rightarrow> frame \<Rightarrow> frame outcome" where
  "chunk_loop 0 k f = Done f"
| "chunk_loop (Suc n) k f =
     (let velArray = take (chunkSize f * NDOF f) (fid f);
          f1 = f\<lparr>fid := drop (chunkSize f * NDOF f) (fid f)\<rparr>
      in if length velArray = 0 then Done (f1\<lparr>NChunks := int k - 1\<rparr>)
         else if length velArray \<noteq> chunkSize f * NDOF f then
           (let f2 = f1\<lparr>chunkSize := length velArray div NDOF f\<rparr>
            in if k > 0 then Done (f2\<lparr>NChunks := int k - 1\<rparr>)
               else
                 (case angular_grid (chunkSize f2) (sampleTimestep f2) of
                    Inl e \<Rightarrow> Raised e (f2\<lparr>exitFlag := True\<rparr>)
                  | Inr oms \<Rightarrow>
                      (case process_chunk k velArray
                              (f2\<lparr>exitFlag := True, oms_fft := oms, Nfreqs := length oms\<rparr>) of
                         Throw e f3 \<Rightarrow> Raised e f3
                       | Break f3 \<Rightarrow> Done f3
                       | Continue f3 \<Rightarrow> chunk_loop n (Suc k) f3)))
         else
           (case process_chunk k velArray f1 of
              Throw e f3 \<Rightarrow> Raised e f3
            | Break f3 \<Rightarrow> Done f3
            | Continue f3 \<Rightarrow> chunk_loop n (Suc k) f3))"

subsection \<open>\<^verbatim>\<open>postProcess\<close> (lines 296 to 467)\<close>

text \<open>Lines 322 to 324: the atom ids of the file against \<^verbatim>\<open>inds_interface + 1\<close>.\<close>

fun check_ids :: "int list \<Rightarrow> int list \<Rightarrow> nat \<Rightarrow> nat \<Rightarrow> error option" where
  "check_ids inds indArray j 0 = None"
| "check_ids inds indArray j (Suc n) =
     (if length inds \<le> j \<or> length indArray \<le> j then Some IndexError
      else if inds ! j + 1 \<noteq> indArray ! j then Some SystemExit_ids
      else check_ids inds indArray (Suc j) n)"

text \<open>Lines 455 to 463: the standard error from the between-chunk variance.\<close>

definition error_estimate :: "frame \<Rightarrow> frame outcome" where
  "error_estimate f =
     (if NChunks f > 1 then
        (case np_broadcast2
                (\<lambda>m2 m. (real_of_int (NChunks f) / (real_of_int (NChunks f) - 1)) * (m2 - m ^ 2))
                (SHC_smooth2 f) (SHC_smooth f) of
           Inl e \<Rightarrow> Raised e f
         | Inr samplevar \<Rightarrow>
             Done (f\<lparr>SHC_error :=
                      Some (map (\<lambda>v. sqrt v / sqrt (real_of_int (NChunks f))) samplevar)\<rparr>))
      else Done (f\<lparr>SHC_error := None\<rparr>))"

definition open_file :: "SHCPostProc \<Rightarrow> velocity_file \<Rightarrow> frame" where
  "open_file s file =
     SHCPostProc.extend s (frame.fields (velocities file) 0 False)"

text \<open>Lines 340 to 349: the grid, the number of bins, the zeroed running arrays, the flag.\<close>

definition start_loop :: "frame \<Rightarrow> real list \<Rightarrow> frame" where
  "start_loop f0 oms =
     f0\<lparr>oms_fft := oms, Nfreqs := length oms,
        SHC_smooth := replicate (length oms) 0,
        SHC_smooth2 := replicate (length oms) 0,
        SHC_average := replicate (length oms) 0,
        exitFlag := False\<rparr>"

definition postProcess :: "SHCPostProc \<Rightarrow> velocity_file \<Rightarrow> frame outcome" where
  "postProcess s file =
     (let f0 = open_file s file
      in if natoms file \<noteq> int (NL s + NR s) then Raised ValueError_atoms f0
         else if real_of_int (stride file) * dt_md s \<noteq> sampleTimestep s
           then Raised SystemExit_stride f0
         else
           (case check_ids (inds_interface s) (take (nat (natoms file)) (atom_ids file)) 0
                   (nat (natoms file)) of
              Some e \<Rightarrow> Raised e f0
            | None \<Rightarrow>
                (case angular_grid (chunkSize s) (sampleTimestep s) of
                   Inl e \<Rightarrow> Raised e f0
                 | Inr oms \<Rightarrow>
                     (case chunk_loop (nat (NChunks s)) 0 (start_loop f0 oms) of
                        Raised e f \<Rightarrow> Raised e f
                      | Done f \<Rightarrow> error_estimate f))))"

subsection \<open>The aggregator on a given sequence of curves\<close>

text \<open>
  The update of lines 432 to 437 applied to a sequence of pairs (\<^verbatim>\<open>SHC\<close>, \<^verbatim>\<open>SHC_orig\<close>),
  with the count going up by one per pair, as the loop does for the chunks it folds in.
\<close>

fun aggregate :: "nat \<Rightarrow> (real list \<times> real list) list \<Rightarrow> frame \<Rightarrow> flow" where
  "aggregate k [] f = Continue f"
| "aggregate k (c # cs) f =
     (case time_average k (fst c) (snd c) f of
        Continue f' \<Rightarrow> aggregate (Suc k) cs f'
      | Break f' \<Rightarrow> Break f'
      | Throw e f' \<Rightarrow> Throw e f')"

subsection \<open>A small interface for the concrete runs\<close>

text \<open>
  One atom on each side (\<open>NDOF = 6\<close>), a force-constant matrix that couples the two
  \<open>x\<close> components only, unit time step and scale factor, chunks of four samples.
\<close>

definition demo :: SHCPostProc where
  "demo = \<lparr>Kij = [[1, 0, 0], [0, 0, 0], [0, 0, 0]], ids_L = [0], ids_R = [1],
            inds_interface = [0, 1], dt_md = 1, sampleTimestep = 1, scaleFactor = 1,
            widthWin = 1 / 4, NChunks = 1, chunkSize = 4, in_plane = False,
            out_of_plane = False, velsL = [], velsR = [], SHC_smooth = [], SHC_smooth2 = [],
            SHC_average = [], SHC_error = None, oms_fft = []\<rparr>"

definition demo_file :: "real list \<Rightarrow> velocity_file" where
  "demo_file vs = \<lparr>natoms = 2, stride = 1, atom_ids = [1, 2], velocities = vs\<rparr>"

subsection \<open>Notions used to state the properties\<close>

text \<open>The rows \<open>3 * a + off\<close> of a matrix for the atoms \<open>a\<close> of one side, in order.\<close>

definition axis_rows :: "'a list list \<Rightarrow> nat list \<Rightarrow> nat \<Rightarrow> 'a list list" where
  "axis_rows m ids off = map (\<lambda>a. m ! (3 * a + off)) ids"

text \<open>The rows of the atoms of one side with the axes interleaved: \<open>x, y, z\<close> per atom.\<close>

definition gather :: "'a list list \<Rightarrow> nat list \<Rightarrow> 'a list list" where
  "gather m ids = map (\<lambda>a. m ! (3 * (ids ! (a div 3)) + a mod 3)) [0..<3 * length ids]"

text \<open>Every atom index of one side has its three rows among the first \<open>n\<close>.\<close>

definition ids_fit :: "nat list \<Rightarrow> nat \<Rightarrow> bool" where
  "ids_fit ids n \<longleftrightarrow> list_all (\<lambda>a. 3 * a + 2 < n) ids"

text \<open>The de-interleaved chunk: row \<open>d\<close> is the time series of degree of freedom \<open>d\<close>.\<close>

definition chunk_rows :: "real list \<Rightarrow> nat \<Rightarrow> nat \<Rightarrow> real list list" where
  "chunk_rows velArray ndof csize =
     map (\<lambda>d. map (\<lambda>t. velArray ! (t * ndof + d)) [0..<csize]) [0..<ndof]"

text \<open>
  The axes that a projection mode drops: \<open>z\<close> in plane, \<open>x\<close> and \<open>y\<close> out of plane
  (section 4.3 of the specification).
\<close>

definition dropped :: "frame \<Rightarrow> nat \<Rightarrow> bool" where
  "dropped f a =
     (if in_plane f \<and> \<not> out_of_plane f then a mod 3 = 2
      else if out_of_plane f \<and> \<not> in_plane f then a mod 3 < 2
      else False)"

text \<open>
  The frequency-domain velocity of row \<open>a\<close> of one side at bin \<open>i\<close>, in the words of
  the specification: the real-input FFT of the de-interleaved row of that degree of
  freedom, scaled by the sample time step, and zero on a dropped axis.
\<close>

definition V_side :: "frame \<Rightarrow> real list \<Rightarrow> nat list \<Rightarrow> nat \<Rightarrow> nat \<Rightarrow> complex" where
  "V_side f velArray ids a i =
     (if dropped f a then 0
      else rfft (chunk_rows velArray (NDOF f) (chunkSize f) ! (3 * (ids ! (a div 3)) + a mod 3)) ! i
           * complex_of_real (sampleTimestep f))"

definition K_proj :: "frame \<Rightarrow> nat \<Rightarrow> nat \<Rightarrow> real" where
  "K_proj f a b = (if dropped f a then 0 else Kij f ! a ! b)"

text \<open>The bilinear form \<open>V_L[:,i]\<^sup>t K conj(V_R[:,i])\<close> written as a double sum.\<close>

definition bilinear :: "frame \<Rightarrow> real list \<Rightarrow> nat \<Rightarrow> complex" where
  "bilinear f velArray i =
     (\<Sum>a<3 * NL f. \<Sum>b<3 * NR f.
        V_side f velArray (ids_L f) a i * complex_of_real (K_proj f a b)
          * cnj (V_side f velArray (ids_R f) b i))"

text \<open>A matrix after \<^verbatim>\<open>_differ_direction\<close>, or as it is when no projection flag is set.\<close>

definition projected :: "frame \<Rightarrow> ('a::zero) list list \<Rightarrow> 'a list list" where
  "projected f m =
     (if in_plane f \<and> \<not> out_of_plane f then zero_rows 2 m
      else if out_of_plane f \<and> \<not> in_plane f then zero_rows 1 (zero_rows 0 m)
      else m)"

text \<open>
  One chunk of four samples of the six degrees of freedom, flat as in the file: the \<open>x\<close>
  velocity of the left atom is 1 at the first time step, that of the right atom is 1 at
  the second, everything else is 0.
\<close>

definition demo_chunk :: "real list" where
  "demo_chunk = [1, 0, 0, 0, 0, 0,  0, 0, 0, 1, 0, 0,  0, 0, 0, 0, 0, 0,  0, 0, 0, 0, 0, 0]"

text \<open>The frame with which the loop of \<^verbatim>\<open>postProcess\<close> starts on that file.\<close>

definition demo_frame :: frame where
  "demo_frame = start_loop (open_file demo (demo_file demo_chunk)) [0, pi / 2, pi]"

text \<open>The same frame with a smoothing window of three frequency bins.\<close>

definition wide_frame :: frame where
  "wide_frame = demo_frame\<lparr>widthWin := 3 / 4\<rparr>"

text \<open>
  What a step may do to the force constants: the projection flags stay as they are, and
  \<^verbatim>\<open>Kij\<close> is the matrix it was or that matrix with the rows of the dropped axes zeroed.
\<close>

definition K_kept :: "frame \<Rightarrow> frame \<Rightarrow> bool" where
  "K_kept f f' \<longleftrightarrow>
     in_plane f' = in_plane f \<and> out_of_plane f' = out_of_plane f \<and>
     (Kij f' = Kij f \<or> Kij f' = projected f (Kij f))"

text \<open>The header of the file agrees with the object (lines 304 to 326 raise nothing).\<close>

definition header_ok :: "SHCPostProc \<Rightarrow> velocity_file \<Rightarrow> bool" where
  "header_ok s file \<longleftrightarrow>
     natoms file = int (NL s + NR s) \<and>
     real_of_int (stride file) * dt_md s = sampleTimestep s \<and>
     check_ids (inds_interface s) (take (nat (natoms file)) (atom_ids file)) 0
       (nat (natoms file)) = None"

text \<open>The small interface with the out-of-plane projection requested.\<close>

definition out_demo :: SHCPostProc where
  "out_demo = demo\<lparr>out_of_plane := True\<rparr>"

text \<open>
  The state in which \<^verbatim>\<open>postProcess\<close> can fold a full chunk into the running averages:
  the atom indices are rows of the chunk, at most one projection flag is set, \<^verbatim>\<open>Kij\<close>
  has the shape the loader checks, the grid has at least two bins, the smoothing window has
  between one sample and as many as the grid, and the running arrays have the length of
  the grid.
\<close>

text \<open>The smoothing window of a frame, in samples; 0 where there is none.\<close>

definition window :: "frame \<Rightarrow> int" where
  "window f =
     (case window_size ((oms_fft f ! 1 - oms_fft f ! 0) / (2 * pi)) (widthWin f) of
        Inl e \<Rightarrow> 0
      | Inr gwin \<Rightarrow> gwin)"

definition ready :: "frame \<Rightarrow> bool" where
  "ready f \<longleftrightarrow>
     ids_fit (ids_L f) (NDOF f) \<and> ids_fit (ids_R f) (NDOF f) \<and>
     \<not> (in_plane f \<and> out_of_plane f) \<and> Kij_fits f \<and>
     2 \<le> Nfreqs f \<and> length (oms_fft f) = Nfreqs f \<and>
     1 \<le> window f \<and> window f \<le> int (Nfreqs f) \<and>
     length (SHC_smooth f) = Nfreqs f \<and> length (SHC_smooth2 f) = Nfreqs f \<and>
     length (SHC_average f) = Nfreqs f \<and> \<not> exitFlag f"

text \<open>
  Five chunks requested from the small interface; a stream of three full chunks and one
  time step of a fourth; a stream of two full chunks.
\<close>

definition five_demo :: SHCPostProc where
  "five_demo = demo\<lparr>NChunks := 5\<rparr>"

definition three_and_partial :: velocity_file where
  "three_and_partial = demo_file (demo_chunk @ demo_chunk @ demo_chunk @ [1, 2, 3, 4, 5, 6])"

definition two_chunks :: velocity_file where
  "two_chunks = demo_file (demo_chunk @ demo_chunk)"

text \<open>The small interface with both projections requested.\<close>

definition both_demo :: SHCPostProc where
  "both_demo = demo\<lparr>in_plane := True, out_of_plane := True\<rparr>"

text \<open>A stream that ends after seven samples, one more than a time step of six.\<close>

definition seven_samples :: velocity_file where
  "seven_samples = demo_file [1, 2, 3, 4, 5, 6, 7]"

text \<open>
  The frame in which a short first chunk is processed (lines 367 to 375): the stream is
  used up, the chunk size is the number of whole time steps read, the flag is set and the
  grid is the one rebuilt for that chunk size.
\<close>

definition short_first_frame :: "SHCPostProc \<Rightarrow> velocity_file \<Rightarrow> real list \<Rightarrow> real list \<Rightarrow> frame" where
  "short_first_frame s file oms oms' =
     (start_loop (open_file s file) oms)
       \<lparr>fid := drop (chunkSize s * NDOF s) (velocities file),
        chunkSize := length (take (chunkSize s * NDOF s) (velocities file)) div NDOF s,
        exitFlag := True, oms_fft := oms', Nfreqs := length oms'\<rparr>"

text \<open>The grid of section 4.1 of the specification: bin \<open>i\<close> is \<open>2 \<pi> i / (L \<Delta>t)\<close>.\<close>

definition frequency_grid :: "nat \<Rightarrow> real \<Rightarrow> real list" where
  "frequency_grid L dt = map (\<lambda>i. 2 * pi * real i / (real L * dt)) [0..<L div 2 + 1]"



text \<open>A stream of one time step of the six degrees of freedom.\<close>

definition one_step :: velocity_file where
  "one_step = demo_file [1, 2, 3, 4, 5, 6]"

section \<open>Properties\<close>

subsection \<open>The transformation of a chunk\<close>

lemma take_rows_Inr:
  "take_rows m idx = Inr src \<longleftrightarrow> list_all (\<lambda>i. i < length m) idx \<and> src = map (\<lambda>i. m ! i) idx"
  by (auto simp: take_rows_def)

lemma length_set_rows [simp]: "length (set_rows off src target) = length target"
  by (simp add: set_rows_def)

lemma nth_set_rows:
  "i < length target \<Longrightarrow>
   set_rows off src target ! i = (if i mod 3 = off then src ! (i div 3) else target ! i)"
  by (simp add: set_rows_def)

lemma set_rows_three:
  assumes "length target = 3 * length ids"
  shows "set_rows 2 (axis_rows m ids 2)
          (set_rows (Suc 0) (axis_rows m ids (Suc 0))
            (set_rows 0 (axis_rows m ids 0) target)) = gather m ids"
proof (rule nth_equalityI)
  show "length (set_rows 2 (axis_rows m ids 2)
          (set_rows (Suc 0) (axis_rows m ids (Suc 0))
            (set_rows 0 (axis_rows m ids 0) target))) = length (gather m ids)"
    using assms by (simp add: gather_def)
next
  fix i
  assume "i < length (set_rows 2 (axis_rows m ids 2)
          (set_rows (Suc 0) (axis_rows m ids (Suc 0))
            (set_rows 0 (axis_rows m ids 0) target)))"
  then have i: "i < 3 * length ids" using assms by simp
  then have d: "i div 3 < length ids" by simp
  have m: "i mod 3 = 0 \<or> i mod 3 = 1 \<or> i mod 3 = 2" by presburger
  show "set_rows 2 (axis_rows m ids 2)
          (set_rows (Suc 0) (axis_rows m ids (Suc 0))
            (set_rows 0 (axis_rows m ids 0) target)) ! i = gather m ids ! i"
    using i d m assms by (auto simp: nth_set_rows gather_def axis_rows_def)
qed

lemma take_rows_axis:
  "ids_fit ids (length m) \<Longrightarrow> off \<le> 2 \<Longrightarrow>
   take_rows m (map (\<lambda>a. 3 * a + off) ids) = Inr (axis_rows m ids off)"
  by (auto simp: take_rows_def ids_fit_def list_all_iff axis_rows_def)

lemma set_velsL_Done:
  "ids_fit (ids_L f) (length vf) \<Longrightarrow> off \<le> 2 \<Longrightarrow>
   set_velsL off vf f = Done (f\<lparr>velsL := set_rows off (axis_rows vf (ids_L f) off) (velsL f)\<rparr>)"
  by (simp add: set_velsL_def take_rows_axis)

lemma set_velsR_Done:
  "ids_fit (ids_R f) (length vf) \<Longrightarrow> off \<le> 2 \<Longrightarrow>
   set_velsR off vf f = Done (f\<lparr>velsR := set_rows off (axis_rows vf (ids_R f) off) (velsR f)\<rparr>)"
  by (simp add: set_velsR_def take_rows_axis)

lemma select_rows_Done:
  assumes "ids_fit (ids_L f) (length vf)" and "ids_fit (ids_R f) (length vf)"
    and "length (velsL f) = 3 * length (ids_L f)" and "length (velsR f) = 3 * length (ids_R f)"
  shows "seq [set_velsL 0 vf, set_velsL (Suc 0) vf, set_velsL 2 vf,
              set_velsR 0 vf, set_velsR (Suc 0) vf, set_velsR 2 vf] f =
         Done (f\<lparr>velsL := gather vf (ids_L f), velsR := gather vf (ids_R f)\<rparr>)"
  using assms by (simp add: set_velsL_Done set_velsR_Done set_rows_three)

lemma transform_chunk_Done:
  assumes "length velArray = NDOF f * chunkSize f"
    and "ids_fit (ids_L f) (NDOF f)" and "ids_fit (ids_R f) (NDOF f)"
  shows "transform_chunk velArray f =
     Done (f\<lparr>velsL := gather (scaled_fft (sampleTimestep f) (chunk_rows velArray (NDOF f) (chunkSize f))) (ids_L f),
             velsR := gather (scaled_fft (sampleTimestep f) (chunk_rows velArray (NDOF f) (chunkSize f))) (ids_R f)\<rparr>)"
proof -
  let ?vf = "scaled_fft (sampleTimestep f) (chunk_rows velArray (NDOF f) (chunkSize f))"
  let ?f0 = "f\<lparr>velsL := replicate (3 * NL f) (replicate (Nfreqs f) 0),
               velsR := replicate (3 * NR f) (replicate (Nfreqs f) 0)\<rparr>"
  have len: "length ?vf = NDOF f" by (simp add: scaled_fft_def chunk_rows_def)
  have r: "reshape_F velArray (NDOF f) (chunkSize f) = Inr (chunk_rows velArray (NDOF f) (chunkSize f))"
    using assms(1) by (simp add: reshape_F_def chunk_rows_def)
  have "seq [set_velsL 0 ?vf, set_velsL (Suc 0) ?vf, set_velsL 2 ?vf,
              set_velsR 0 ?vf, set_velsR (Suc 0) ?vf, set_velsR 2 ?vf] ?f0 =
         Done (?f0\<lparr>velsL := gather ?vf (ids_L ?f0), velsR := gather ?vf (ids_R ?f0)\<rparr>)"
    by (rule select_rows_Done) (use assms len in \<open>simp_all add: NL_def NR_def\<close>)
  then show ?thesis
    unfolding transform_chunk_def r by (simp add: Let_def)
qed

subsection \<open>The running averages\<close>

lemma running_mean_same_length:
  "length m = n \<Longrightarrow> length x = n \<Longrightarrow>
   running_mean k m x = Inr (map (\<lambda>i. (real k * m ! i + x ! i) / (real k + 1)) [0..<n])"
  by (auto simp: running_mean_def np_broadcast2_def intro!: nth_equalityI)

lemma time_average_Continue:
  assumes "\<not> exitFlag f" "length (SHC_smooth f) = n" "length (SHC_smooth2 f) = n"
    "length (SHC_average f) = n" "length SHC = n" "length SHC_orig = n"
  shows "time_average k SHC SHC_orig f =
    Continue (f\<lparr>SHC_smooth := map (\<lambda>i. (real k * SHC_smooth f ! i + SHC ! i) / (real k + 1)) [0..<n],
                SHC_smooth2 := map (\<lambda>i. (real k * SHC_smooth2 f ! i + (SHC ! i)^2) / (real k + 1)) [0..<n],
                SHC_average := map (\<lambda>i. (real k * SHC_average f ! i + SHC_orig ! i) / (real k + 1)) [0..<n]\<rparr>)"
  using assms by (simp add: time_average_def running_mean_same_length [where n = n])

lemma mean_step:
  fixes m c s :: real
  shows "(real (Suc k) * (real k * m + c) / (real k + 1) + s) / (real (Suc k) + real n)
       = (real k * m + (c + s)) / (real k + real (Suc n))"
proof -
  have 1: "real (Suc k) * (real k * m + c) / (real k + 1) = real k * m + c"
    by (simp add: add.commute)
  have 2: "real (Suc k) + real n = real k + real (Suc n)"
    by simp
  show ?thesis by (simp only: 1 2 add.assoc)
qed

lemma aggregate_mean:
  assumes "\<not> exitFlag f" "length (SHC_smooth f) = n" "length (SHC_smooth2 f) = n"
    "length (SHC_average f) = n" "\<forall>c \<in> set cs. length (fst c) = n \<and> length (snd c) = n"
    "cs = [] \<longrightarrow> 0 < k"
  shows "\<exists>f'. aggregate k cs f = Continue f' \<and>
     SHC_smooth f' = map (\<lambda>i. (real k * SHC_smooth f ! i + (\<Sum>c\<leftarrow>cs. fst c ! i)) / (real k + real (length cs))) [0..<n] \<and>
     SHC_smooth2 f' = map (\<lambda>i. (real k * SHC_smooth2 f ! i + (\<Sum>c\<leftarrow>cs. (fst c ! i)^2)) / (real k + real (length cs))) [0..<n] \<and>
     SHC_average f' = map (\<lambda>i. (real k * SHC_average f ! i + (\<Sum>c\<leftarrow>cs. snd c ! i)) / (real k + real (length cs))) [0..<n]"
  using assms
proof (induction cs arbitrary: k f)
  case Nil
  then show ?case by (auto intro!: nth_equalityI)
next
  case (Cons c cs)
  let ?f1 = "f\<lparr>SHC_smooth := map (\<lambda>i. (real k * SHC_smooth f ! i + fst c ! i) / (real k + 1)) [0..<n],
                SHC_smooth2 := map (\<lambda>i. (real k * SHC_smooth2 f ! i + (fst c ! i)^2) / (real k + 1)) [0..<n],
                SHC_average := map (\<lambda>i. (real k * SHC_average f ! i + snd c ! i) / (real k + 1)) [0..<n]\<rparr>"
  have ta: "time_average k (fst c) (snd c) f = Continue ?f1"
    using Cons.prems by (intro time_average_Continue) auto
  have "\<exists>f'. aggregate (Suc k) cs ?f1 = Continue f' \<and>
     SHC_smooth f' = map (\<lambda>i. (real (Suc k) * SHC_smooth ?f1 ! i + (\<Sum>c\<leftarrow>cs. fst c ! i)) / (real (Suc k) + real (length cs))) [0..<n] \<and>
     SHC_smooth2 f' = map (\<lambda>i. (real (Suc k) * SHC_smooth2 ?f1 ! i + (\<Sum>c\<leftarrow>cs. (fst c ! i)^2)) / (real (Suc k) + real (length cs))) [0..<n] \<and>
     SHC_average f' = map (\<lambda>i. (real (Suc k) * SHC_average ?f1 ! i + (\<Sum>c\<leftarrow>cs. snd c ! i)) / (real (Suc k) + real (length cs))) [0..<n]"
    using Cons.prems by (intro Cons.IH) auto
  then obtain f' where f': "aggregate (Suc k) cs ?f1 = Continue f'"
     "SHC_smooth f' = map (\<lambda>i. (real (Suc k) * SHC_smooth ?f1 ! i + (\<Sum>c\<leftarrow>cs. fst c ! i)) / (real (Suc k) + real (length cs))) [0..<n]"
     "SHC_smooth2 f' = map (\<lambda>i. (real (Suc k) * SHC_smooth2 ?f1 ! i + (\<Sum>c\<leftarrow>cs. (fst c ! i)^2)) / (real (Suc k) + real (length cs))) [0..<n]"
     "SHC_average f' = map (\<lambda>i. (real (Suc k) * SHC_average ?f1 ! i + (\<Sum>c\<leftarrow>cs. snd c ! i)) / (real (Suc k) + real (length cs))) [0..<n]"
    by blast
  have "aggregate k (c # cs) f = Continue f'"
    using ta f'(1) by simp
  moreover have "SHC_smooth f' = map (\<lambda>i. (real k * SHC_smooth f ! i + (\<Sum>c\<leftarrow>c # cs. fst c ! i)) / (real k + real (length (c # cs)))) [0..<n]"
    unfolding f'(2) by (rule map_cong [OF refl]) (simp add: mean_step del: of_nat_Suc)
  moreover have "SHC_smooth2 f' = map (\<lambda>i. (real k * SHC_smooth2 f ! i + (\<Sum>c\<leftarrow>c # cs. (fst c ! i)^2)) / (real k + real (length (c # cs)))) [0..<n]"
    unfolding f'(3) by (rule map_cong [OF refl]) (simp add: mean_step del: of_nat_Suc)
  moreover have "SHC_average f' = map (\<lambda>i. (real k * SHC_average f ! i + (\<Sum>c\<leftarrow>c # cs. snd c ! i)) / (real k + real (length (c # cs)))) [0..<n]"
    unfolding f'(4) by (rule map_cong [OF refl]) (simp add: mean_step del: of_nat_Suc)
  ultimately show ?case by blast
qed

text \<open>
  C6. Folding \<open>k\<close> curves of one length into running arrays that start at zero with
  count 0, by the update \<open>M \<leftarrow> (k * M + x) / (k + 1)\<close> of lines 433 to 437, leaves in
  each running array the elementwise arithmetic mean of what was folded in: the smoothed
  curves, their squares, and the unsmoothed curves.
\<close>

theorem running_mean_is_arithmetic_mean:
  assumes "cs \<noteq> []"
    and "list_all (\<lambda>c. length (fst c) = n \<and> length (snd c) = n) cs"
    and "\<not> exitFlag f"
    and "SHC_smooth f = replicate n 0"
    and "SHC_smooth2 f = replicate n 0"
    and "SHC_average f = replicate n 0"
  shows "\<exists>f'. aggregate 0 cs f = Continue f' \<and>
     SHC_smooth f' = map (\<lambda>i. (\<Sum>c\<leftarrow>cs. fst c ! i) / real (length cs)) [0..<n] \<and>
     SHC_smooth2 f' = map (\<lambda>i. (\<Sum>c\<leftarrow>cs. (fst c ! i)^2) / real (length cs)) [0..<n] \<and>
     SHC_average f' = map (\<lambda>i. (\<Sum>c\<leftarrow>cs. snd c ! i) / real (length cs)) [0..<n]"
proof -
  have "\<exists>f'. aggregate 0 cs f = Continue f' \<and>
     SHC_smooth f' = map (\<lambda>i. (real 0 * SHC_smooth f ! i + (\<Sum>c\<leftarrow>cs. fst c ! i)) / (real 0 + real (length cs))) [0..<n] \<and>
     SHC_smooth2 f' = map (\<lambda>i. (real 0 * SHC_smooth2 f ! i + (\<Sum>c\<leftarrow>cs. (fst c ! i)^2)) / (real 0 + real (length cs))) [0..<n] \<and>
     SHC_average f' = map (\<lambda>i. (real 0 * SHC_average f ! i + (\<Sum>c\<leftarrow>cs. snd c ! i)) / (real 0 + real (length cs))) [0..<n]"
    using assms by (intro aggregate_mean) (auto simp: list_all_iff)
  then show ?thesis by simp
qed

theorem running_mean_is_arithmetic_mean_witness:
  "\<exists>f'. aggregate 0 [([1, 3], [2, 4]), ([3, 5], [4, 8])]
          ((open_file demo (demo_file []))
             \<lparr>SHC_smooth := [0, 0], SHC_smooth2 := [0, 0], SHC_average := [0, 0]\<rparr>) = Continue f' \<and>
        SHC_smooth f' = [2, 4] \<and> SHC_smooth2 f' = [5, 17] \<and> SHC_average f' = [3, 6]"
  using running_mean_is_arithmetic_mean
    [of "[([1, 3], [2, 4]), ([3, 5], [4, 8])]" 2
        "(open_file demo (demo_file []))
             \<lparr>SHC_smooth := [0, 0], SHC_smooth2 := [0, 0], SHC_average := [0, 0]\<rparr>"]
  by (simp add: open_file_def demo_def demo_file_def SHCPostProc.extend_def frame.fields_def
        upt_rec numeral_2_eq_2)

lemma chunk_curves_CurvesD:
  assumes "chunk_curves velArray f = Curves f2 SHC SHC_orig"
  shows "\<exists>f1. transform_chunk velArray f = Done f1 \<and>
          (if in_plane f1 \<or> out_of_plane f1 then differ_direction f1 else Done f1) = Done f2 \<and>
          spectral_current f2 = Inr SHC_orig \<and> 2 \<le> length (oms_fft f2) \<and>
          smoothen SHC_orig ((oms_fft f2 ! 1 - oms_fft f2 ! 0) / (2 * pi)) (widthWin f2) = Inr SHC"
  using assms unfolding chunk_curves_def
  by (auto split: outcome.splits sum.splits if_splits)

lemma seq_Done_Cons:
  "seq (step # steps) f = Done f' \<Longrightarrow> \<exists>f1. step f = Done f1 \<and> seq steps f1 = Done f'"
  by (auto split: outcome.splits)

lemma set_velsL_DoneD:
  "set_velsL off vf f = Done f' \<Longrightarrow>
   list_all (\<lambda>a. 3 * a + off < length vf) (ids_L f) \<and> ids_L f' = ids_L f \<and> ids_R f' = ids_R f"
  by (auto simp: set_velsL_def take_rows_def list_all_iff split: sum.splits if_splits)

lemma set_velsR_DoneD:
  "set_velsR off vf f = Done f' \<Longrightarrow>
   list_all (\<lambda>a. 3 * a + off < length vf) (ids_R f) \<and> ids_L f' = ids_L f \<and> ids_R f' = ids_R f"
  by (auto simp: set_velsR_def take_rows_def list_all_iff split: sum.splits if_splits)

lemma transform_chunk_DoneD:
  assumes "transform_chunk velArray f = Done f1"
  shows "length velArray = NDOF f * chunkSize f \<and> ids_fit (ids_L f) (NDOF f) \<and> ids_fit (ids_R f) (NDOF f)"
proof -
  let ?rows = "chunk_rows velArray (NDOF f) (chunkSize f)"
  let ?vf = "scaled_fft (sampleTimestep f) ?rows"
  let ?f0 = "f\<lparr>velsL := replicate (3 * NL f) (replicate (Nfreqs f) 0),
               velsR := replicate (3 * NR f) (replicate (Nfreqs f) 0)\<rparr>"
  have len: "length velArray = NDOF f * chunkSize f"
    using assms by (auto simp: transform_chunk_def reshape_F_def split: if_splits)
  then have r: "reshape_F velArray (NDOF f) (chunkSize f) = Inr ?rows"
    by (simp add: reshape_F_def chunk_rows_def)
  have s: "seq [set_velsL 0 ?vf, set_velsL 1 ?vf, set_velsL 2 ?vf,
              set_velsR 0 ?vf, set_velsR 1 ?vf, set_velsR 2 ?vf] ?f0 = Done f1"
    using assms unfolding transform_chunk_def r by (simp add: Let_def)
  have lvf: "length ?vf = NDOF f" by (simp add: scaled_fft_def chunk_rows_def)
  from seq_Done_Cons [OF s] obtain g1 where g1: "set_velsL 0 ?vf ?f0 = Done g1"
    and s1: "seq [set_velsL 1 ?vf, set_velsL 2 ?vf, set_velsR 0 ?vf, set_velsR 1 ?vf, set_velsR 2 ?vf] g1 = Done f1" by blast
  from seq_Done_Cons [OF s1] obtain g2 where g2: "set_velsL 1 ?vf g1 = Done g2"
    and s2: "seq [set_velsL 2 ?vf, set_velsR 0 ?vf, set_velsR 1 ?vf, set_velsR 2 ?vf] g2 = Done f1" by blast
  from seq_Done_Cons [OF s2] obtain g3 where g3: "set_velsL 2 ?vf g2 = Done g3"
    and s3: "seq [set_velsR 0 ?vf, set_velsR 1 ?vf, set_velsR 2 ?vf] g3 = Done f1" by blast
  from seq_Done_Cons [OF s3] obtain g4 where g4: "set_velsR 0 ?vf g3 = Done g4"
    and s4: "seq [set_velsR 1 ?vf, set_velsR 2 ?vf] g4 = Done f1" by blast
  from seq_Done_Cons [OF s4] obtain g5 where g5: "set_velsR 1 ?vf g4 = Done g5"
    and s5: "seq [set_velsR 2 ?vf] g5 = Done f1" by blast
  from seq_Done_Cons [OF s5] obtain g6 where g6: "set_velsR 2 ?vf g5 = Done g6" by blast
  have "ids_L g2 = ids_L f"
    using set_velsL_DoneD [OF g1] set_velsL_DoneD [OF g2] by simp
  then have L: "ids_fit (ids_L f) (NDOF f)"
    using set_velsL_DoneD [OF g3] lvf by (simp add: ids_fit_def)
  have "ids_R g5 = ids_R f"
    using set_velsL_DoneD [OF g1] set_velsL_DoneD [OF g2] set_velsL_DoneD [OF g3]
      set_velsR_DoneD [OF g4] set_velsR_DoneD [OF g5] by simp
  then have R: "ids_fit (ids_R f) (NDOF f)"
    using set_velsR_DoneD [OF g6] lvf by (simp add: ids_fit_def)
  show ?thesis using len L R by simp
qed

lemma dot_vv_sum:
  "length u = n \<Longrightarrow> length w = n \<Longrightarrow> dot_vv u w = (\<Sum>a<n. u ! a * w ! a)"
  by (simp add: dot_vv_def sum_list_sum_nth atLeast0LessThan)

lemma dot_mv_nth:
  "a < length k \<Longrightarrow> length (k ! a) = n \<Longrightarrow> length v = n \<Longrightarrow>
   dot_mv k v ! a = (\<Sum>b<n. complex_of_real (k ! a ! b) * v ! b)"
  by (simp add: dot_mv_def dot_vv_sum [where n = n])

lemma bilinear_form_sum:
  assumes "length vl = n" "length k = n" "\<forall>a<n. length (k ! a) = m" "length vr = m"
  shows "dot_vv (column vl i) (dot_mv k (map cnj (column vr i))) =
         (\<Sum>a<n. \<Sum>b<m. vl ! a ! i * complex_of_real (k ! a ! b) * cnj (vr ! b ! i))"
proof -
  have "dot_vv (column vl i) (dot_mv k (map cnj (column vr i))) =
        (\<Sum>a<n. column vl i ! a * dot_mv k (map cnj (column vr i)) ! a)"
    using assms by (intro dot_vv_sum) (simp_all add: column_def dot_mv_def)
  also have "\<dots> = (\<Sum>a<n. \<Sum>b<m. vl ! a ! i * complex_of_real (k ! a ! b) * cnj (vr ! b ! i))"
  proof (rule sum.cong [OF refl])
    fix a assume "a \<in> {..<n}"
    then have a: "a < n" by simp
    have "dot_mv k (map cnj (column vr i)) ! a = (\<Sum>b<m. complex_of_real (k ! a ! b) * map cnj (column vr i) ! b)"
      using a assms by (intro dot_mv_nth) (simp_all add: column_def)
    also have "\<dots> = (\<Sum>b<m. complex_of_real (k ! a ! b) * cnj (vr ! b ! i))"
      using assms by (intro sum.cong [OF refl]) (simp add: column_def)
    finally show "column vl i ! a * dot_mv k (map cnj (column vr i)) ! a =
       (\<Sum>b<m. vl ! a ! i * complex_of_real (k ! a ! b) * cnj (vr ! b ! i))"
      using a assms by (simp add: column_def sum_distrib_left mult.assoc)
  qed
  finally show ?thesis .
qed

lemma length_zero_rows [simp]: "length (zero_rows off m) = length m"
  by (simp add: zero_rows_def)

lemma nth_zero_rows:
  "a < length m \<Longrightarrow>
   zero_rows off m ! a = (if a mod 3 = off then replicate (length (m ! a)) 0 else m ! a)"
  by (simp add: zero_rows_def)

lemma length_nth_zero_rows [simp]:
  "a < length m \<Longrightarrow> length (zero_rows off m ! a) = length (m ! a)"
  by (simp add: nth_zero_rows)

lemma length_gather [simp]: "length (gather m ids) = 3 * length ids"
  by (simp add: gather_def)

lemma nth_gather:
  "a < 3 * length ids \<Longrightarrow> gather m ids ! a = m ! (3 * (ids ! (a div 3)) + a mod 3)"
  by (simp add: gather_def)

lemma length_projected [simp]: "length (projected f m) = length m"
  by (simp add: projected_def)

lemma length_nth_projected [simp]: "a < length m \<Longrightarrow> length (projected f m ! a) = length (m ! a)"
  by (simp add: projected_def)

lemma nth_projected:
  "a < length m \<Longrightarrow> i < length (m ! a) \<Longrightarrow>
   projected f m ! a ! i = (if dropped f a then 0 else m ! a ! i)"
  by (auto simp: projected_def dropped_def nth_zero_rows)

lemma projection_DoneD:
  assumes "(if in_plane f1 \<or> out_of_plane f1 then differ_direction f1 else Done f1) = Done f2"
  shows "f2 = f1\<lparr>Kij := projected f1 (Kij f1), velsL := projected f1 (velsL f1),
                 velsR := projected f1 (velsR f1)\<rparr>"
    and "\<not> (in_plane f1 \<and> out_of_plane f1)"
  using assms by (auto simp: differ_direction_def projected_def split: if_splits)

lemma length_rfft [simp]: "length (rfft xs) = length xs div 2 + 1"
  by (simp add: rfft_def)

lemma length_scaled_fft [simp]: "length (scaled_fft dt rows) = length rows"
  by (simp add: scaled_fft_def)

lemma length_chunk_rows [simp]: "length (chunk_rows velArray ndof csize) = ndof"
  by (simp add: chunk_rows_def)

lemma length_nth_chunk_rows [simp]: "d < ndof \<Longrightarrow> length (chunk_rows velArray ndof csize ! d) = csize"
  by (simp add: chunk_rows_def)

lemma nth_scaled_fft:
  "d < length rows \<Longrightarrow> scaled_fft dt rows ! d = map (\<lambda>z. z * complex_of_real dt) (rfft (rows ! d))"
  by (simp add: scaled_fft_def)

lemma ids_fit_row:
  "ids_fit ids n \<Longrightarrow> a < 3 * length ids \<Longrightarrow> 3 * (ids ! (a div 3)) + a mod 3 < n"
proof -
  assume f: "ids_fit ids n" and a: "a < 3 * length ids"
  then have "a div 3 < length ids" by simp
  then have "3 * (ids ! (a div 3)) + 2 < n"
    using f by (simp add: ids_fit_def list_all_length)
  moreover have "a mod 3 \<le> 2" by presburger
  ultimately show ?thesis by linarith
qed

lemma gathered_row:
  assumes "ids_fit ids ndof" "a < 3 * length ids"
  shows "gather (scaled_fft dt (chunk_rows velArray ndof csize)) ids ! a =
         map (\<lambda>z. z * complex_of_real dt)
           (rfft (chunk_rows velArray ndof csize ! (3 * (ids ! (a div 3)) + a mod 3)))"
  using assms ids_fit_row [OF assms] by (simp add: nth_gather nth_scaled_fft)

lemma projected_gathered_nth:
  assumes "ids_fit ids (NDOF f)" "a < 3 * length ids" "i < chunkSize f div 2 + 1"
  shows "projected f (gather (scaled_fft (sampleTimestep f) (chunk_rows velArray (NDOF f) (chunkSize f))) ids) ! a ! i
         = V_side f velArray ids a i"
proof -
  let ?g = "gather (scaled_fft (sampleTimestep f) (chunk_rows velArray (NDOF f) (chunkSize f))) ids"
  have d: "3 * (ids ! (a div 3)) + a mod 3 < NDOF f"
    using ids_fit_row [OF assms(1,2)] .
  have row: "?g ! a = map (\<lambda>z. z * complex_of_real (sampleTimestep f))
           (rfft (chunk_rows velArray (NDOF f) (chunkSize f) ! (3 * (ids ! (a div 3)) + a mod 3)))"
    using assms by (intro gathered_row)
  have len: "length (?g ! a) = chunkSize f div 2 + 1"
    unfolding row using d by simp
  have "projected f ?g ! a ! i = (if dropped f a then 0 else ?g ! a ! i)"
    using assms len by (intro nth_projected) simp_all
  also have "?g ! a ! i = rfft (chunk_rows velArray (NDOF f) (chunkSize f) ! (3 * (ids ! (a div 3)) + a mod 3)) ! i
           * complex_of_real (sampleTimestep f)"
    unfolding row using assms(3) d by simp
  finally show ?thesis by (simp add: V_side_def)
qed

lemma projected_update [simp]:
  "projected (f\<lparr>velsL := vl\<rparr>) m = projected f m"
  "projected (f\<lparr>velsR := vr\<rparr>) m = projected f m"
  "projected (f\<lparr>Kij := k\<rparr>) m = projected f m"
  by (simp_all add: projected_def)

lemma chunk_curves_frame:
  assumes "chunk_curves velArray f = Curves f2 SHC SHC_orig"
  defines "vf \<equiv> scaled_fft (sampleTimestep f) (chunk_rows velArray (NDOF f) (chunkSize f))"
  shows "f2 = f\<lparr>Kij := projected f (Kij f),
                velsL := projected f (gather vf (ids_L f)),
                velsR := projected f (gather vf (ids_R f))\<rparr>"
    and "length velArray = NDOF f * chunkSize f"
    and "ids_fit (ids_L f) (NDOF f)" and "ids_fit (ids_R f) (NDOF f)"
    and "\<not> (in_plane f \<and> out_of_plane f)"
    and "spectral_current f2 = Inr SHC_orig"
    and "2 \<le> length (oms_fft f)"
    and "smoothen SHC_orig ((oms_fft f ! 1 - oms_fft f ! 0) / (2 * pi)) (widthWin f) = Inr SHC"
proof -
  from chunk_curves_CurvesD [OF assms(1)] obtain f1 where
    t: "transform_chunk velArray f = Done f1"
    and p: "(if in_plane f1 \<or> out_of_plane f1 then differ_direction f1 else Done f1) = Done f2"
    and s: "spectral_current f2 = Inr SHC_orig"
    and l: "2 \<le> length (oms_fft f2)"
    and sm: "smoothen SHC_orig ((oms_fft f2 ! 1 - oms_fft f2 ! 0) / (2 * pi)) (widthWin f2) = Inr SHC"
    by blast
  note d = transform_chunk_DoneD [OF t]
  have f1: "f1 = f\<lparr>velsL := gather vf (ids_L f), velsR := gather vf (ids_R f)\<rparr>"
    using t d unfolding vf_def by (simp add: transform_chunk_Done)
  note pd = projection_DoneD [OF p]
  show f2: "f2 = f\<lparr>Kij := projected f (Kij f),
                velsL := projected f (gather vf (ids_L f)),
                velsR := projected f (gather vf (ids_R f))\<rparr>"
    using pd(1) unfolding f1 by simp
  show "length velArray = NDOF f * chunkSize f" "ids_fit (ids_L f) (NDOF f)" "ids_fit (ids_R f) (NDOF f)"
    using d by simp_all
  show "\<not> (in_plane f \<and> out_of_plane f)" using pd(2) unfolding f1 by simp
  show "spectral_current f2 = Inr SHC_orig" by (rule s)
  show "2 \<le> length (oms_fft f)" using l unfolding f2 by simp
  show "smoothen SHC_orig ((oms_fft f ! 1 - oms_fft f ! 0) / (2 * pi)) (widthWin f) = Inr SHC"
    using sm unfolding f2 by simp
qed

lemma Kij_fits_projected:
  "Kij_fits (f\<lparr>Kij := projected f (Kij f), velsL := vl, velsR := vr\<rparr>) \<longleftrightarrow> Kij_fits f"
  by (auto simp: Kij_fits_def NL_def NR_def list_all_length)

lemma spectral_current_nth:
  assumes "spectral_current f = Inr SHC_orig" "i < Nfreqs f"
  shows "SHC_orig ! i = (if i = 0 then 0 else SHC_bin f i) / (real (chunkSize f) * sampleTimestep f) * scaleFactor f"
    and "length SHC_orig = Nfreqs f"
    and "2 \<le> Nfreqs f \<Longrightarrow> Kij_fits f"
  using assms by (auto simp: spectral_current_def split: if_splits)

lemma unsmoothed_bin:
  assumes "chunk_curves velArray f = Curves f2 SHC SHC_orig"
    and "Nfreqs f = chunkSize f div 2 + 1"
    and "1 \<le> i" and "i < Nfreqs f"
  shows "SHC_orig ! i =
           - 2 * Im (bilinear f velArray i) / (oms_fft f ! i)
             / (real (chunkSize f) * sampleTimestep f) * scaleFactor f"
proof -
  define vf where "vf = scaled_fft (sampleTimestep f) (chunk_rows velArray (NDOF f) (chunkSize f))"
  note c = chunk_curves_frame [OF assms(1), folded vf_def]
  have f2: "f2 = f\<lparr>Kij := projected f (Kij f),
                velsL := projected f (gather vf (ids_L f)),
                velsR := projected f (gather vf (ids_R f))\<rparr>"
    by (rule c(1))
  have N2: "Nfreqs f2 = Nfreqs f" unfolding f2 by simp
  have fits: "Kij_fits f"
    using spectral_current_nth(3) [OF c(6)] assms(3,4) N2 unfolding f2 Kij_fits_projected by simp
  have nth: "SHC_orig ! i = SHC_bin f2 i / (real (chunkSize f) * sampleTimestep f) * scaleFactor f"
    using spectral_current_nth(1) [OF c(6), of i] assms(3,4) N2 unfolding f2 by simp
  have i: "i < chunkSize f div 2 + 1" using assms(2,4) by simp
  have K: "length (Kij f) = 3 * NL f" "\<forall>a<3 * NL f. length (Kij f ! a) = 3 * NR f"
    using fits by (auto simp: Kij_fits_def list_all_length)
  have "dot_vv (column (velsL f2) i) (dot_mv (Kij f2) (map cnj (column (velsR f2) i))) =
      (\<Sum>a<3 * NL f. \<Sum>b<3 * NR f. velsL f2 ! a ! i * complex_of_real (Kij f2 ! a ! b) * cnj (velsR f2 ! b ! i))"
    using K unfolding f2 by (intro bilinear_form_sum) (simp_all add: NL_def NR_def)
  also have "\<dots> = bilinear f velArray i"
    unfolding bilinear_def
  proof (intro sum.cong refl)
    fix a b assume "a \<in> {..<3 * NL f}" "b \<in> {..<3 * NR f}"
    then have a: "a < 3 * length (ids_L f)" and b: "b < 3 * length (ids_R f)"
      by (simp_all add: NL_def NR_def)
    have 1: "velsL f2 ! a ! i = V_side f velArray (ids_L f) a i"
      unfolding f2 vf_def using c(3) a i by (simp add: projected_gathered_nth)
    have 2: "velsR f2 ! b ! i = V_side f velArray (ids_R f) b i"
      unfolding f2 vf_def using c(4) b i by (simp add: projected_gathered_nth)
    have 3: "Kij f2 ! a ! b = K_proj f a b"
      unfolding f2 K_proj_def using K a b by (simp add: nth_projected NL_def NR_def)
    show "velsL f2 ! a ! i * complex_of_real (Kij f2 ! a ! b) * cnj (velsR f2 ! b ! i) =
          V_side f velArray (ids_L f) a i * complex_of_real (K_proj f a b) * cnj (V_side f velArray (ids_R f) b i)"
      by (simp only: 1 2 3)
  qed
  finally have "SHC_bin f2 i = - 2 * Im (bilinear f velArray i) / (oms_fft f ! i)"
    unfolding SHC_bin_def by (simp add: f2)
  then show ?thesis using nth by simp
qed

lemma length_gauss_window: "length (gauss_window g) = (if g = 1 then 1 else nat g)"
  by (simp add: gauss_window_def Let_def)

lemma convolve_same_Inr:
  assumes "a \<noteq> []" "v \<noteq> []"
  shows "convolve_same a v =
     Inr (map (\<lambda>i. conv_full (if length v > length a then v else a) (if length v > length a then a else v)
                    (i + (min (length a) (length v) - 1) div 2))
              [0..<max (length a) (length v)])"
  using assms by (auto simp: convolve_same_def Let_def min_def max_def)

lemma smoothen_succeeds:
  assumes "func \<noteq> []" "window_size df w = Inr g" "1 \<le> g"
  shows "\<exists>SHC. smoothen func df w = Inr SHC"
proof -
  have "gauss_window g \<noteq> []"
    using assms(3) by (simp add: length_gauss_window flip: length_greater_0_conv)
  then show ?thesis
    using assms(1,2) by (simp add: smoothen_def convolve_same_Inr)
qed

lemma smoothen_zero_spacing: "smoothen func 0 w = Inl ValueError_arange"
  by (simp add: smoothen_def window_size_def)

lemma window_Inr:
  "1 \<le> window f \<Longrightarrow>
   window_size ((oms_fft f ! 1 - oms_fft f ! 0) / (2 * pi)) (widthWin f) = Inr (window f)"
  by (simp add: window_def split: sum.splits)


lemma differ_direction_Done:
  "\<not> (in_plane f \<and> out_of_plane f) \<Longrightarrow>
   (if in_plane f \<or> out_of_plane f then differ_direction f else Done f) =
   Done (f\<lparr>Kij := projected f (Kij f), velsL := projected f (velsL f), velsR := projected f (velsR f)\<rparr>)"
  by (auto simp: differ_direction_def projected_def)

lemma chunk_curves_succeeds:
  assumes "length velArray = NDOF f * chunkSize f"
    and "ids_fit (ids_L f) (NDOF f)" and "ids_fit (ids_R f) (NDOF f)"
    and "\<not> (in_plane f \<and> out_of_plane f)"
    and "Kij_fits f"
    and "2 \<le> length (oms_fft f)" and "1 \<le> Nfreqs f"
    and "1 \<le> window f"
  shows "\<exists>f2 SHC SHC_orig. chunk_curves velArray f = Curves f2 SHC SHC_orig"
proof -
  define vf where "vf = scaled_fft (sampleTimestep f) (chunk_rows velArray (NDOF f) (chunkSize f))"
  define f1 where "f1 = f\<lparr>velsL := gather vf (ids_L f), velsR := gather vf (ids_R f)\<rparr>"
  define f2 where "f2 = f1\<lparr>Kij := projected f1 (Kij f1), velsL := projected f1 (velsL f1), velsR := projected f1 (velsR f1)\<rparr>"
  have t: "transform_chunk velArray f = Done f1"
    using assms(1-3) unfolding f1_def vf_def by (rule transform_chunk_Done)
  have p: "(if in_plane f1 \<or> out_of_plane f1 then differ_direction f1 else Done f1) = Done f2"
    unfolding f2_def using assms(4) by (intro differ_direction_Done) (simp add: f1_def)
  have "Kij_fits f2"
    using assms(5) unfolding f2_def f1_def by (simp add: Kij_fits_projected)
  then obtain SHC_orig where s: "spectral_current f2 = Inr SHC_orig" and l: "length SHC_orig = Nfreqs f2"
    by (simp add: spectral_current_def)
  have "SHC_orig \<noteq> []"
    using l assms(7) by (auto simp: f2_def f1_def)
  moreover have "window_size ((oms_fft f2 ! 1 - oms_fft f2 ! 0) / (2 * pi)) (widthWin f2) = Inr (window f)"
    using window_Inr [OF assms(8)] by (simp add: f2_def f1_def)
  ultimately obtain SHC where sm: "smoothen SHC_orig ((oms_fft f2 ! 1 - oms_fft f2 ! 0) / (2 * pi)) (widthWin f2) = Inr SHC"
    using smoothen_succeeds assms(8) by blast
  have "\<not> length (oms_fft f2) < 2" using assms(6) by (simp add: f2_def f1_def)
  then have "chunk_curves velArray f = Curves f2 SHC SHC_orig"
    unfolding chunk_curves_def t using p s sm by (simp del: One_nat_def)
  then show ?thesis by blast
qed

lemmas demo_defs = demo_frame_def start_loop_def open_file_def demo_def demo_file_def
  SHCPostProc.extend_def frame.fields_def

lemma demo_frame_fields:
  "NDOF demo_frame = 6" "NL demo_frame = 1" "NR demo_frame = 1" "chunkSize demo_frame = 4"
  "Nfreqs demo_frame = 3" "oms_fft demo_frame = [0, pi / 2, pi]" "sampleTimestep demo_frame = 1"
  "scaleFactor demo_frame = 1" "ids_L demo_frame = [0]" "ids_R demo_frame = [1]"
  "Kij demo_frame = [[1, 0, 0], [0, 0, 0], [0, 0, 0]]"
  "in_plane demo_frame = False" "out_of_plane demo_frame = False" "widthWin demo_frame = 1 / 4"
  "exitFlag demo_frame = False"
  by (simp_all add: demo_defs NDOF_def NL_def NR_def)

lemma angular_grid_demo: "angular_grid 4 1 = Inr [0, pi / 2, pi]"
  by (simp add: angular_grid_def rfftfreq_def upt_rec numeral_3_eq_3)

lemma cis_minus_pi: "cis (- pi) = - 1"
  by (simp flip: cis_cnj)

lemma cis_minus_3pi_half: "cis (- (3 * pi / 2)) = \<i>"
proof -
  have "- (3 * pi / 2) = - pi + - (pi / 2)" by simp
  then have "cis (- (3 * pi / 2)) = cis (- pi) * cis (- (pi / 2))"
    by (simp only: cis_mult)
  then show ?thesis by (simp add: cis_minus_pi)
qed

lemma cis_minus_2pi: "cis (- (2 * pi)) = 1"
  by (simp flip: cis_cnj)

lemma cis_minus_3pi: "cis (- (3 * pi)) = - 1"
proof -
  have "- (3 * pi) = - (2 * pi) + - pi" by simp
  then have "cis (- (3 * pi)) = cis (- (2 * pi)) * cis (- pi)"
    by (simp only: cis_mult)
  then show ?thesis by (simp add: cis_minus_pi cis_minus_2pi)
qed

lemma rfft4:
  "rfft [a, b, c, d] =
     [complex_of_real (a + b + c + d), Complex (a - c) (d - b), complex_of_real (a - b + c - d)]"
proof -
  have u: "[0..<length [a, b, c, d] div 2 + 1] = [0, 1, 2]"
    by (simp add: upt_rec)
  have s: "(\<Sum>t<length [a, b, c, d]. g t) = g 0 + g 1 + g 2 + g 3" for g :: "nat \<Rightarrow> complex"
    by (simp add: lessThan_Suc eval_nat_numeral)
  have l: "real (length [a, b, c, d]) = 4" by simp
  show ?thesis
    unfolding rfft_def u s l
    by (simp add: cis_minus_pi cis_minus_3pi_half cis_minus_2pi cis_minus_3pi complex_eq_iff)
qed

lemma demo_rows: "chunk_rows demo_chunk 6 4 =
   [[1, 0, 0, 0], [0, 0, 0, 0], [0, 0, 0, 0], [0, 1, 0, 0], [0, 0, 0, 0], [0, 0, 0, 0]]"
  by (simp add: chunk_rows_def demo_chunk_def upt_rec eval_nat_numeral)

lemma sum3: "(\<Sum>a<(3::nat). g a) = g 0 + g 1 + g 2" for g :: "nat \<Rightarrow> complex"
  by (simp add: lessThan_Suc eval_nat_numeral)

lemma dropped_demo [simp]: "dropped demo_frame a = False"
  by (simp add: dropped_def demo_frame_fields)

lemma V_side_demo:
  "a < 3 \<Longrightarrow> V_side demo_frame demo_chunk [j] a i =
     rfft (chunk_rows demo_chunk 6 4 ! (3 * j + a)) ! i"
  by (simp add: V_side_def demo_frame_fields)

lemma bilinear_demo: "bilinear demo_frame demo_chunk (Suc 0) = \<i>"
  by (simp add: bilinear_def demo_frame_fields sum3 V_side_demo K_proj_def demo_rows rfft4
      complex_eq_iff)

lemma demo_curves:
  "\<exists>f2 SHC SHC_orig. chunk_curves demo_chunk demo_frame = Curves f2 SHC SHC_orig"
proof (rule chunk_curves_succeeds)
  show "length demo_chunk = NDOF demo_frame * chunkSize demo_frame"
    by (simp add: demo_frame_fields demo_chunk_def)
  show "ids_fit (ids_L demo_frame) (NDOF demo_frame)" "ids_fit (ids_R demo_frame) (NDOF demo_frame)"
    by (simp_all add: demo_frame_fields ids_fit_def)
  show "\<not> (in_plane demo_frame \<and> out_of_plane demo_frame)"
    by (simp add: demo_frame_fields)
  show "Kij_fits demo_frame"
    by (simp add: Kij_fits_def demo_frame_fields)
  show "2 \<le> length (oms_fft demo_frame)" "1 \<le> Nfreqs demo_frame"
    by (simp_all add: demo_frame_fields)
  show "1 \<le> window demo_frame"
    by (simp add: demo_frame_fields window_def window_size_def)
qed

text \<open>
  C1. For every chunk that is processed, bin \<open>i \<ge> 1\<close> of the curve kept before
  smoothing is \<open>- 2 * Im (V_L[:,i]\<^sup>t K conj(V_R[:,i])) / \<omega>[i]\<close>, divided by
  \<open>chunkSize * sampleTimestep\<close> and multiplied by the scale factor, where \<open>V_L\<close> and
  \<open>V_R\<close> are the scaled real-input FFTs of the de-interleaved rows of the left and right
  atoms and \<open>\<omega>\<close> is the grid \<^verbatim>\<open>oms_fft\<close>. Under a projection mode the dropped axes
  count as zero in \<open>V_L\<close>, \<open>V_R\<close> and \<open>K\<close>. The grid has \<open>chunkSize div 2 + 1\<close> bins
  whenever \<^verbatim>\<open>postProcess\<close> processes a chunk.
\<close>

theorem spectral_current_formula:
  assumes "chunk_curves velArray f = Curves f2 SHC SHC_orig"
    and "Nfreqs f = chunkSize f div 2 + 1"
    and "1 \<le> i" and "i < Nfreqs f"
  shows "SHC_orig ! i =
           - 2 * Im (bilinear f velArray i) / (oms_fft f ! i)
             / (real (chunkSize f) * sampleTimestep f) * scaleFactor f"
  using assms by (rule unsmoothed_bin)

theorem spectral_current_formula_witness:
  "is_Curves (chunk_curves demo_chunk demo_frame) \<and>
   Nfreqs demo_frame = chunkSize demo_frame div 2 + 1 \<and> (1::nat) \<le> 1 \<and> 1 < Nfreqs demo_frame \<and>
   unsmoothed (chunk_curves demo_chunk demo_frame) ! 1 = - 1 / pi"
proof -
  from demo_curves obtain f2 SHC SHC_orig
    where c: "chunk_curves demo_chunk demo_frame = Curves f2 SHC SHC_orig" by blast
  have n: "Nfreqs demo_frame = chunkSize demo_frame div 2 + 1" "1 < Nfreqs demo_frame"
    by (simp_all add: demo_frame_fields)
  have "SHC_orig ! 1 = - 2 * Im (bilinear demo_frame demo_chunk 1) / (oms_fft demo_frame ! 1)
             / (real (chunkSize demo_frame) * sampleTimestep demo_frame) * scaleFactor demo_frame"
    using spectral_current_formula [OF c n(1) _ n(2)] by simp
  then have "SHC_orig ! 1 = - 1 / pi"
    by (simp add: bilinear_demo demo_frame_fields)
  then show ?thesis using c n by simp
qed

lemma spectral_current_length:
  "spectral_current f = Inr SHC_orig \<Longrightarrow> length SHC_orig = Nfreqs f"
  by (auto simp: spectral_current_def split: if_splits)

lemma conv_full_unit:
  assumes "i < length a"
  shows "conv_full a [1] i = a ! i"
proof -
  have "conv_full a [1] i = (\<Sum>p\<leftarrow>[0..<length a]. if p = i then a ! p else 0)"
    unfolding conv_full_def
    by (rule arg_cong [where f = sum_list], rule map_cong [OF refl]) auto
  also have "\<dots> = (\<Sum>p\<in>{0..<length a}. if p = i then a ! p else 0)"
    by (simp add: interv_sum_list_conv_sum_set_nat)
  also have "\<dots> = a ! i"
    using assms by (simp add: sum.delta)
  finally show ?thesis .
qed

lemma convolve_same_unit:
  assumes "a \<noteq> []"
  shows "convolve_same a [1] = Inr a"
proof -
  have "\<not> length [1::real] > length a"
    using assms by (cases a) simp_all
  then have "convolve_same a [1] = Inr (map (\<lambda>i. conv_full a [1] (i + 0)) [0..<length a])"
    using assms by (simp add: convolve_same_def Let_def)
  also have "map (\<lambda>i. conv_full a [1] (i + 0)) [0..<length a] = a"
    by (rule nth_equalityI) (simp_all add: conv_full_unit)
  finally show ?thesis .
qed

lemma smoothen_unit_window:
  assumes "window_size df w = Inr 1"
  shows "smoothen func df w = (if func = [] then Inl ValueError_convolve else Inr func)"
  using assms by (simp add: smoothen_def gauss_window_def convolve_same_unit)
     (simp add: convolve_same_def)

lemma unsmoothed_bin0:
  assumes "chunk_curves velArray f = Curves f2 SHC SHC_orig"
  shows "SHC_orig \<noteq> [] \<and> SHC_orig ! 0 = 0 \<and>
         (window_size ((oms_fft f ! 1 - oms_fft f ! 0) / (2 * pi)) (widthWin f) = Inr 1 \<longrightarrow>
            SHC = SHC_orig \<and> SHC ! 0 = 0)"
proof -
  note c = chunk_curves_frame [OF assms]
  have ne: "SHC_orig \<noteq> []"
    using c(8) by (auto simp: smoothen_def convolve_same_def Let_def split: if_splits sum.splits)
  then have "0 < Nfreqs f2"
    using c(6) by (auto simp: spectral_current_def split: if_splits)
  then have z: "SHC_orig ! 0 = 0"
    using spectral_current_nth(1) [OF c(6), of 0] by simp
  have "SHC = SHC_orig" if "window_size ((oms_fft f ! 1 - oms_fft f ! 0) / (2 * pi)) (widthWin f) = Inr 1"
    using c(8) ne smoothen_unit_window [OF that, of SHC_orig] by simp
  then show ?thesis using ne z by auto
qed

text \<open>
  C3, as the code has it. In every chunk that is processed the curve kept before smoothing
  is not empty and its bin 0 is exactly 0. When the Gaussian window has one sample, the
  smoothed curve is that same curve, so its bin 0 is 0 as well. (With a wider window the
  convolution adds neighbouring bins into bin 0, which is not reset.)
\<close>

theorem zero_bin_unsmoothed:
  assumes "chunk_curves velArray f = Curves f2 SHC SHC_orig"
  shows "SHC_orig \<noteq> [] \<and> SHC_orig ! 0 = 0 \<and>
         (window_size ((oms_fft f ! 1 - oms_fft f ! 0) / (2 * pi)) (widthWin f) = Inr 1 \<longrightarrow>
            SHC = SHC_orig \<and> SHC ! 0 = 0)"
  using assms by (rule unsmoothed_bin0)

text \<open>The witness, at the chunk and the frame of the small interface.\<close>

theorem zero_bin_unsmoothed_witness:
  "is_Curves (chunk_curves demo_chunk demo_frame) \<and>
   window_size ((oms_fft demo_frame ! 1 - oms_fft demo_frame ! 0) / (2 * pi)) (widthWin demo_frame) = Inr 1 \<and>
   unsmoothed (chunk_curves demo_chunk demo_frame) ! 0 = 0 \<and>
   smoothed (chunk_curves demo_chunk demo_frame) ! 0 = 0"
proof -
  from demo_curves obtain f2 SHC SHC_orig
    where c: "chunk_curves demo_chunk demo_frame = Curves f2 SHC SHC_orig" by blast
  have w: "window_size ((oms_fft demo_frame ! 1 - oms_fft demo_frame ! 0) / (2 * pi)) (widthWin demo_frame) = Inr 1"
    by (simp add: demo_frame_fields window_size_def)
  show ?thesis
    using zero_bin_unsmoothed [OF c] w c by simp
qed

lemma wide_frame_fields:
  "NDOF wide_frame = 6" "NL wide_frame = 1" "NR wide_frame = 1" "chunkSize wide_frame = 4"
  "Nfreqs wide_frame = 3" "oms_fft wide_frame = [0, pi / 2, pi]" "sampleTimestep wide_frame = 1"
  "scaleFactor wide_frame = 1" "ids_L wide_frame = [0]" "ids_R wide_frame = [1]"
  "Kij wide_frame = [[1, 0, 0], [0, 0, 0], [0, 0, 0]]"
  "in_plane wide_frame = False" "out_of_plane wide_frame = False" "widthWin wide_frame = 3 / 4"
  "exitFlag wide_frame = False"
  using demo_frame_fields by (simp_all add: wide_frame_def NDOF_def NL_def NR_def)

lemma wide_window: "window_size ((oms_fft wide_frame ! 1 - oms_fft wide_frame ! 0) / (2 * pi)) (widthWin wide_frame) = Inr 3"
  by (simp add: wide_frame_fields window_size_def)

lemma dropped_wide [simp]: "dropped wide_frame a = False"
  by (simp add: dropped_def wide_frame_fields)

lemma V_side_wide:
  "a < 3 \<Longrightarrow> V_side wide_frame demo_chunk [j] a i =
     rfft (chunk_rows demo_chunk 6 4 ! (3 * j + a)) ! i"
  by (simp add: V_side_def wide_frame_fields)

lemma bilinear_wide: "bilinear wide_frame demo_chunk (Suc 0) = \<i>"
  by (simp add: bilinear_def wide_frame_fields sum3 V_side_wide K_proj_def demo_rows rfft4
      complex_eq_iff)

lemma wide_curves:
  "\<exists>f2 SHC SHC_orig. chunk_curves demo_chunk wide_frame = Curves f2 SHC SHC_orig"
proof (rule chunk_curves_succeeds)
  show "length demo_chunk = NDOF wide_frame * chunkSize wide_frame"
    by (simp add: wide_frame_fields demo_chunk_def)
  show "ids_fit (ids_L wide_frame) (NDOF wide_frame)" "ids_fit (ids_R wide_frame) (NDOF wide_frame)"
    by (simp_all add: wide_frame_fields ids_fit_def)
  show "\<not> (in_plane wide_frame \<and> out_of_plane wide_frame)"
    by (simp add: wide_frame_fields)
  show "Kij_fits wide_frame"
    by (simp add: Kij_fits_def wide_frame_fields)
  show "2 \<le> length (oms_fft wide_frame)" "1 \<le> Nfreqs wide_frame"
    by (simp_all add: wide_frame_fields)
  show "1 \<le> window wide_frame"
    using wide_window by (simp add: window_def)
qed

lemma gauss_window_3:
  "gauss_window 3 = [exp (- (9 / 2)) / (2 * exp (- (9 / 2)) + 1), 1 / (2 * exp (- (9 / 2)) + 1),
                     exp (- (9 / 2)) / (2 * exp (- (9 / 2)) + 1)]"
  by (simp add: gauss_window_def Let_def upt_rec eval_nat_numeral)

lemma conv_full_3_1:
  "length a = 3 \<Longrightarrow> length v = 3 \<Longrightarrow> conv_full a v 1 = a ! 0 * v ! 1 + a ! 1 * v ! 0"
  by (simp add: conv_full_def upt_rec eval_nat_numeral)

text \<open>
  C3 as stated fails: with a window of three bins, bin 0 of the smoothed curve of this
  chunk is \<open>- (1 / pi) * g\<close>, \<open>g\<close> the positive outer weight of the Gaussian.
\<close>

theorem zero_bin_smoothed_counterexample:
  "is_Curves (chunk_curves demo_chunk wide_frame) \<and>
   smoothed (chunk_curves demo_chunk wide_frame) ! 0 \<noteq> 0"
proof -
  from wide_curves obtain f2 SHC SHC_orig
    where c: "chunk_curves demo_chunk wide_frame = Curves f2 SHC SHC_orig" by blast
  note fr = chunk_curves_frame [OF c]
  have n: "Nfreqs wide_frame = chunkSize wide_frame div 2 + 1" "1 < Nfreqs wide_frame"
    by (simp_all add: wide_frame_fields)
  have "SHC_orig ! 1 = - 2 * Im (bilinear wide_frame demo_chunk 1) / (oms_fft wide_frame ! 1)
             / (real (chunkSize wide_frame) * sampleTimestep wide_frame) * scaleFactor wide_frame"
    using unsmoothed_bin [OF c n(1) _ n(2)] by simp
  then have b1: "SHC_orig ! Suc 0 = - 1 / pi"
    by (simp add: bilinear_wide wide_frame_fields)
  have b0: "SHC_orig ! 0 = 0"
    using unsmoothed_bin0 [OF c] by simp
  have len: "length SHC_orig = 3"
    using spectral_current_length [OF fr(6)] fr(1) by (simp add: wide_frame_fields)
  have "smoothen SHC_orig ((oms_fft wide_frame ! 1 - oms_fft wide_frame ! 0) / (2 * pi)) (widthWin wide_frame) = Inr SHC"
    by (rule fr(8))
  then have "convolve_same SHC_orig (gauss_window 3) = Inr SHC"
    using wide_window by (simp add: smoothen_def)
  then have "SHC = map (\<lambda>i. conv_full SHC_orig (gauss_window 3) (i + 1)) [0..<3]"
    using len by (auto simp: convolve_same_def Let_def gauss_window_3 split: if_splits)
  then have "SHC ! 0 = conv_full SHC_orig (gauss_window 3) 1"
    by (simp add: upt_rec)
  also have "\<dots> = SHC_orig ! 0 * gauss_window 3 ! 1 + SHC_orig ! 1 * gauss_window 3 ! 0"
    using len by (intro conv_full_3_1) (simp_all add: gauss_window_3)
  also have "\<dots> = - (1 / pi) * (exp (- (9 / 2)) / (2 * exp (- (9 / 2)) + 1))"
    by (simp add: b0 b1 gauss_window_3)
  finally have "SHC ! 0 = - (1 / pi) * (exp (- (9 / 2)) / (2 * exp (- (9 / 2)) + 1))" .
  moreover have "(2 * exp (- (9 / 2)) + 1 :: real) > 0"
    by (simp add: add_pos_pos)
  ultimately have "SHC ! 0 \<noteq> 0"
    by (simp add: add_pos_pos pos_add_strict less_imp_neq [THEN not_sym])
  then show ?thesis using c by simp
qed

lemma zero_rows_idem: "zero_rows off (zero_rows off m) = zero_rows off m"
  by (rule nth_equalityI) (simp_all add: nth_zero_rows)

lemma zero_rows_commute: "zero_rows a (zero_rows b m) = zero_rows b (zero_rows a m)"
  by (rule nth_equalityI) (simp_all add: nth_zero_rows)

lemma projected_idem: "projected f (projected f m) = projected f m"
  by (simp add: projected_def zero_rows_idem zero_rows_commute [of 0 "Suc 0"])

lemma projected_flags:
  "in_plane f' = in_plane f \<Longrightarrow> out_of_plane f' = out_of_plane f \<Longrightarrow> projected f' m = projected f m"
  by (simp add: projected_def)

lemma K_kept_refl [simp]: "K_kept f f"
  by (simp add: K_kept_def)

lemma K_kept_trans: "K_kept f g \<Longrightarrow> K_kept g h \<Longrightarrow> K_kept f h"
  unfolding K_kept_def
  by (auto simp: projected_idem projected_flags [of g f])

lemma K_kept_plain:
  "in_plane f' = in_plane f \<Longrightarrow> out_of_plane f' = out_of_plane f \<Longrightarrow> Kij f' = Kij f \<Longrightarrow> K_kept f f'"
  by (simp add: K_kept_def)

lemma K_kept_set_velsL: "K_kept f (final (set_velsL off vf f))"
  by (auto simp: set_velsL_def K_kept_def split: sum.splits)

lemma K_kept_set_velsR: "K_kept f (final (set_velsR off vf f))"
  by (auto simp: set_velsR_def K_kept_def split: sum.splits)

lemma K_kept_seq:
  assumes "\<And>step g. step \<in> set steps \<Longrightarrow> K_kept g (final (step g))"
  shows "K_kept f (final (seq steps f))"
  using assms
proof (induction steps arbitrary: f)
  case Nil
  then show ?case by simp
next
  case (Cons step steps)
  have 1: "K_kept f (final (step f))" using Cons.prems by simp
  show ?case
  proof (cases "step f")
    case (Done f')
    have "K_kept f' (final (seq steps f'))"
      using Cons.prems by (intro Cons.IH) simp
    then show ?thesis using 1 Done by (auto intro: K_kept_trans)
  next
    case (Raised e f')
    then show ?thesis using 1 by simp
  qed
qed

lemma K_kept_transform_chunk: "K_kept f (final (transform_chunk velArray f))"
proof (cases "reshape_F velArray (NDOF f) (chunkSize f)")
  case (Inl e)
  then show ?thesis by (simp add: transform_chunk_def)
next
  case (Inr rows)
  let ?f0 = "f\<lparr>velsL := replicate (3 * NL f) (replicate (Nfreqs f) 0),
               velsR := replicate (3 * NR f) (replicate (Nfreqs f) 0)\<rparr>"
  let ?vf = "scaled_fft (sampleTimestep f) rows"
  have "K_kept ?f0 (final (seq [set_velsL 0 ?vf, set_velsL 1 ?vf, set_velsL 2 ?vf,
                   set_velsR 0 ?vf, set_velsR 1 ?vf, set_velsR 2 ?vf] ?f0))"
    by (rule K_kept_seq) (auto simp: K_kept_set_velsL K_kept_set_velsR)
  moreover have "K_kept f ?f0" by (simp add: K_kept_def)
  ultimately have "K_kept f (final (seq [set_velsL 0 ?vf, set_velsL 1 ?vf, set_velsL 2 ?vf,
                   set_velsR 0 ?vf, set_velsR 1 ?vf, set_velsR 2 ?vf] ?f0))"
    by (rule K_kept_trans [rotated])
  then show ?thesis using Inr by (simp add: transform_chunk_def Let_def)
qed

lemma K_kept_differ_direction:
  "K_kept f (final (if in_plane f \<or> out_of_plane f then differ_direction f else Done f))"
  by (auto simp: differ_direction_def K_kept_def projected_def)

lemma K_kept_chunk_curves: "K_kept f (after (chunk_curves velArray f))"
proof -
  have t: "K_kept f (final (transform_chunk velArray f))" by (rule K_kept_transform_chunk)
  show ?thesis
  proof (cases "transform_chunk velArray f")
    case (Raised e f1)
    then show ?thesis using t by (simp add: chunk_curves_def)
  next
    case (Done f1)
    have p: "K_kept f1 (final (if in_plane f1 \<or> out_of_plane f1 then differ_direction f1 else Done f1))"
      by (rule K_kept_differ_direction)
    show ?thesis
    proof (cases "if in_plane f1 \<or> out_of_plane f1 then differ_direction f1 else Done f1")
      case (Raised e f2)
      then have "after (chunk_curves velArray f) = f2"
        using Done by (simp add: chunk_curves_def)
      then show ?thesis using t p Done Raised by (auto intro: K_kept_trans)
    next
      case d2: (Done f2)
      then have "after (chunk_curves velArray f) = f2"
        using Done by (simp add: chunk_curves_def split: sum.splits)
      then show ?thesis using t p Done d2 by (auto intro: K_kept_trans)
    qed
  qed
qed

lemma K_kept_time_average: "K_kept f (frame_of (time_average k SHC SHC_orig f))"
  by (auto simp: time_average_def K_kept_def split: sum.splits)

lemma K_kept_process_chunk: "K_kept f (frame_of (process_chunk k velArray f))"
proof -
  have c: "K_kept f (after (chunk_curves velArray f))" by (rule K_kept_chunk_curves)
  show ?thesis
  proof (cases "chunk_curves velArray f")
    case (Curves f2 SHC SHC_orig)
    then show ?thesis
      using c K_kept_time_average [of f2 k SHC SHC_orig]
      by (auto simp: process_chunk_def intro: K_kept_trans)
  next
    case (Failed e f2)
    then show ?thesis using c by (simp add: process_chunk_def)
  qed
qed

lemma chunk_loop_empty:
  assumes "take (chunkSize f * NDOF f) (fid f) = []"
  shows "chunk_loop (Suc n) k f =
         Done (f\<lparr>fid := drop (chunkSize f * NDOF f) (fid f), NChunks := int k - 1\<rparr>)"
proof -
  have "length (take (chunkSize f * NDOF f) (fid f)) = 0"
    using assms by (simp only: list.size)
  then show ?thesis
    by (simp only: chunk_loop.simps Let_def if_True simp_thms)
qed

lemma chunk_loop_short_later:
  assumes "take (chunkSize f * NDOF f) (fid f) \<noteq> []"
    and "length (take (chunkSize f * NDOF f) (fid f)) \<noteq> chunkSize f * NDOF f"
    and "0 < k"
  shows "chunk_loop (Suc n) k f =
         Done (f\<lparr>fid := drop (chunkSize f * NDOF f) (fid f),
                 chunkSize := length (take (chunkSize f * NDOF f) (fid f)) div NDOF f,
                 NChunks := int k - 1\<rparr>)"
proof -
  have "length (take (chunkSize f * NDOF f) (fid f)) \<noteq> 0"
    using assms(1) by (simp only: length_0_conv not_False_eq_True)
  then show ?thesis
    using assms(2,3) by (simp only: chunk_loop.simps Let_def if_False if_True simp_thms)
qed

lemma chunk_loop_short_first:
  assumes "take (chunkSize f * NDOF f) (fid f) \<noteq> []"
    and "length (take (chunkSize f * NDOF f) (fid f)) \<noteq> chunkSize f * NDOF f"
  shows "chunk_loop (Suc n) 0 f =
     (case angular_grid (length (take (chunkSize f * NDOF f) (fid f)) div NDOF f) (sampleTimestep f) of
        Inl e \<Rightarrow> Raised e (f\<lparr>fid := drop (chunkSize f * NDOF f) (fid f),
                 chunkSize := length (take (chunkSize f * NDOF f) (fid f)) div NDOF f, exitFlag := True\<rparr>)
      | Inr oms \<Rightarrow>
          (case process_chunk 0 (take (chunkSize f * NDOF f) (fid f))
                  (f\<lparr>fid := drop (chunkSize f * NDOF f) (fid f),
                     chunkSize := length (take (chunkSize f * NDOF f) (fid f)) div NDOF f,
                     exitFlag := True, oms_fft := oms, Nfreqs := length oms\<rparr>) of
             Throw e f3 \<Rightarrow> Raised e f3
           | Break f3 \<Rightarrow> Done f3
           | Continue f3 \<Rightarrow> chunk_loop n (Suc 0) f3))"
proof -
  have "length (take (chunkSize f * NDOF f) (fid f)) \<noteq> 0"
    using assms(1) by (simp only: length_0_conv not_False_eq_True)
  then have "chunk_loop (Suc n) 0 f =
     (let f2 = f\<lparr>fid := drop (chunkSize f * NDOF f) (fid f),
                   chunkSize := length (take (chunkSize f * NDOF f) (fid f)) div NDOF f\<rparr>
      in case angular_grid (chunkSize f2) (sampleTimestep f2) of
                    Inl e \<Rightarrow> Raised e (f2\<lparr>exitFlag := True\<rparr>)
                  | Inr oms \<Rightarrow>
                      (case process_chunk 0 (take (chunkSize f * NDOF f) (fid f))
                              (f2\<lparr>exitFlag := True, oms_fft := oms, Nfreqs := length oms\<rparr>) of
                         Throw e f3 \<Rightarrow> Raised e f3
                       | Break f3 \<Rightarrow> Done f3
                       | Continue f3 \<Rightarrow> chunk_loop n (Suc 0) f3))"
    using assms(2)
    by (simp only: chunk_loop.simps Let_def if_False if_True simp_thms less_nat_zero_code)
  then show ?thesis by (simp add: Let_def del: chunk_loop.simps length_take)
qed

lemma chunk_loop_full:
  assumes "take (chunkSize f * NDOF f) (fid f) \<noteq> []"
    and "length (take (chunkSize f * NDOF f) (fid f)) = chunkSize f * NDOF f"
  shows "chunk_loop (Suc n) k f =
     (case process_chunk k (take (chunkSize f * NDOF f) (fid f))
             (f\<lparr>fid := drop (chunkSize f * NDOF f) (fid f)\<rparr>) of
        Throw e f3 \<Rightarrow> Raised e f3
      | Break f3 \<Rightarrow> Done f3
      | Continue f3 \<Rightarrow> chunk_loop n (Suc k) f3)"
proof -
  have "length (take (chunkSize f * NDOF f) (fid f)) \<noteq> 0"
    using assms(1) by (simp only: length_0_conv not_False_eq_True)
  then show ?thesis
    using assms(2) by (simp only: chunk_loop.simps Let_def if_False if_True simp_thms)
qed

lemma K_kept_flow:
  assumes "K_kept f g" and "\<And>f3 k'. K_kept f3 (final (chunk_loop n k' f3))"
  shows "K_kept f (final (case process_chunk k v g of
              Throw e f3 \<Rightarrow> Raised e f3 | Break f3 \<Rightarrow> Done f3
            | Continue f3 \<Rightarrow> chunk_loop n k2 f3))"
proof -
  have p: "K_kept g (frame_of (process_chunk k v g))" by (rule K_kept_process_chunk)
  show ?thesis
  proof (cases "process_chunk k v g")
    case (Continue f3)
    then show ?thesis
      using assms(1) p assms(2) [of f3 k2] by (auto intro: K_kept_trans)
  next
    case (Break f3)
    then show ?thesis using assms(1) p by (auto intro: K_kept_trans)
  next
    case (Throw e f3)
    then show ?thesis using assms(1) p by (auto intro: K_kept_trans)
  qed
qed

lemma K_kept_chunk_loop: "K_kept f (final (chunk_loop n k f))"
proof (induction n arbitrary: k f)
  case 0
  then show ?case by simp
next
  case (Suc n)
  let ?v = "take (chunkSize f * NDOF f) (fid f)"
  let ?f1 = "f\<lparr>fid := drop (chunkSize f * NDOF f) (fid f)\<rparr>"
  let ?f2 = "?f1\<lparr>chunkSize := length ?v div NDOF f\<rparr>"
  show ?case
  proof (cases "?v = []")
    case True
    show ?thesis unfolding chunk_loop_empty [OF True] by (simp add: K_kept_def)
  next
    case ne: False
    show ?thesis
    proof (cases "length ?v = chunkSize f * NDOF f")
      case True
      have "K_kept f ?f1" by (simp add: K_kept_def)
      then show ?thesis
        unfolding chunk_loop_full [OF ne True] using Suc.IH by (rule K_kept_flow)
    next
      case short: False
      show ?thesis
      proof (cases "k > 0")
        case True
        show ?thesis unfolding chunk_loop_short_later [OF ne short True] by (simp add: K_kept_def)
      next
        case False
        then have k0: "k = 0" by simp
        show ?thesis
        proof (cases "angular_grid (length ?v div NDOF f) (sampleTimestep f)")
          case (Inl e)
          then show ?thesis
            unfolding k0 chunk_loop_short_first [OF ne short] by (simp add: K_kept_def)
        next
          case (Inr oms)
          have "K_kept f (?f2\<lparr>exitFlag := True, oms_fft := oms, Nfreqs := length oms\<rparr>)"
            by (simp add: K_kept_def)
          then have "K_kept f (final (case process_chunk 0 ?v (?f2\<lparr>exitFlag := True, oms_fft := oms, Nfreqs := length oms\<rparr>) of
              Throw e f3 \<Rightarrow> Raised e f3 | Break f3 \<Rightarrow> Done f3
            | Continue f3 \<Rightarrow> chunk_loop n (Suc 0) f3))"
            using Suc.IH by (rule K_kept_flow)
          then show ?thesis
            unfolding k0 chunk_loop_short_first [OF ne short] Inr by simp
        qed
      qed
    qed
  qed
qed

lemma K_kept_error_estimate: "K_kept f (final (error_estimate f))"
  by (auto simp: error_estimate_def K_kept_def split: sum.splits)

lemma open_file_fields [simp]:
  "Kij (open_file s file) = Kij s" "in_plane (open_file s file) = in_plane s"
  "out_of_plane (open_file s file) = out_of_plane s" "ids_L (open_file s file) = ids_L s"
  "ids_R (open_file s file) = ids_R s" "chunkSize (open_file s file) = chunkSize s"
  "sampleTimestep (open_file s file) = sampleTimestep s" "NChunks (open_file s file) = NChunks s"
  "fid (open_file s file) = velocities file" "exitFlag (open_file s file) = False"
  "scaleFactor (open_file s file) = scaleFactor s" "widthWin (open_file s file) = widthWin s"
  "SHC_error (open_file s file) = SHC_error s"
  by (simp_all add: open_file_def SHCPostProc.extend_def frame.fields_def)

lemma K_kept_postProcess: "K_kept (open_file s file) (final (postProcess s file))"
proof -
  let ?f0 = "open_file s file"
  have loop: "K_kept ?f0 (final (case chunk_loop (nat (NChunks s)) 0 (start_loop ?f0 oms) of
                        Raised e f \<Rightarrow> Raised e f
                      | Done f \<Rightarrow> error_estimate f))" for oms
  proof -
    have 0: "K_kept ?f0 (start_loop ?f0 oms)" by (simp add: K_kept_def start_loop_def)
    have 1: "K_kept (start_loop ?f0 oms) (final (chunk_loop (nat (NChunks s)) 0 (start_loop ?f0 oms)))"
      by (rule K_kept_chunk_loop)
    show ?thesis
    proof (cases "chunk_loop (nat (NChunks s)) 0 (start_loop ?f0 oms)")
      case (Done f)
      then show ?thesis
        using 0 1 K_kept_error_estimate [of f] by (auto intro: K_kept_trans)
    next
      case (Raised e f)
      then show ?thesis using 0 1 by (auto intro: K_kept_trans)
    qed
  qed
  show ?thesis
    unfolding postProcess_def Let_def
    using loop by (auto split: option.splits sum.splits)
qed

lemma postProcess_loop:
  assumes "header_ok s file" and "angular_grid (chunkSize s) (sampleTimestep s) = Inr oms"
  shows "postProcess s file =
     (case chunk_loop (nat (NChunks s)) 0 (start_loop (open_file s file) oms) of
        Raised e f \<Rightarrow> Raised e f
      | Done f \<Rightarrow> error_estimate f)"
  using assms unfolding postProcess_def header_ok_def Let_def
  by (auto simp del: of_nat_add)

lemma projected_update_fid [simp]:
  "projected (f\<lparr>fid := x\<rparr>) m = projected f m"
  by (simp add: projected_def)

lemma K_kept_final_Kij:
  "K_kept f g \<Longrightarrow> Kij f = projected f0 K \<Longrightarrow> in_plane f = in_plane f0 \<Longrightarrow>
   out_of_plane f = out_of_plane f0 \<Longrightarrow> Kij g = projected f0 K"
  by (auto simp: K_kept_def projected_idem projected_flags [of f f0])

lemma Kij_after_first_chunk:
  assumes "take (chunkSize f * NDOF f) (fid f) \<noteq> []"
    and "length (take (chunkSize f * NDOF f) (fid f)) = chunkSize f * NDOF f"
    and "chunk_curves (take (chunkSize f * NDOF f) (fid f))
           (f\<lparr>fid := drop (chunkSize f * NDOF f) (fid f)\<rparr>) = Curves f2 SHC SHC_orig"
  shows "Kij (final (chunk_loop (Suc n) k f)) = projected f (Kij f)"
proof -
  let ?v = "take (chunkSize f * NDOF f) (fid f)"
  let ?f1 = "f\<lparr>fid := drop (chunkSize f * NDOF f) (fid f)\<rparr>"
  have f2: "Kij f2 = projected f (Kij f)" "in_plane f2 = in_plane f" "out_of_plane f2 = out_of_plane f"
    using chunk_curves_frame(1) [OF assms(3)] by simp_all
  have p: "process_chunk k ?v ?f1 = time_average k SHC SHC_orig f2"
    using assms(3) by (simp add: process_chunk_def)
  have 1: "K_kept f2 (frame_of (time_average k SHC SHC_orig f2))"
    by (rule K_kept_time_average)
  have "K_kept f2 (final (chunk_loop (Suc n) k f))"
  proof (cases "time_average k SHC SHC_orig f2")
    case (Continue f3)
    then show ?thesis
      unfolding chunk_loop_full [OF assms(1,2)] p
      using 1 K_kept_chunk_loop [of f3 n "Suc k"] by (auto intro: K_kept_trans)
  next
    case (Break f3)
    then show ?thesis unfolding chunk_loop_full [OF assms(1,2)] p using 1 by simp
  next
    case (Throw e f3)
    then show ?thesis unfolding chunk_loop_full [OF assms(1,2)] p using 1 by simp
  qed
  then show ?thesis using f2 by (rule K_kept_final_Kij)
qed

lemma header_ok_demo: "header_ok (demo\<lparr>out_of_plane := b, widthWin := w, NChunks := n\<rparr>) (demo_file vs)"
  by (simp add: header_ok_def demo_def demo_file_def NL_def NR_def eval_nat_numeral)

lemma smoothen_length:
  assumes "smoothen func df w = Inr SHC"
  shows "\<exists>g. window_size df w = Inr g \<and>
           length SHC = max (length func) (length (gauss_window g))"
  using assms by (auto simp: smoothen_def convolve_same_def Let_def split: if_splits sum.splits)

lemma chunk_curves_lengths:
  assumes "chunk_curves velArray f = Curves f2 SHC SHC_orig"
  shows "length SHC_orig = Nfreqs f"
    and "length SHC = max (Nfreqs f) (length (gauss_window (window f)))"
proof -
  note c = chunk_curves_frame [OF assms]
  show 1: "length SHC_orig = Nfreqs f"
    using spectral_current_length [OF c(6)] c(1) by simp
  show "length SHC = max (Nfreqs f) (length (gauss_window (window f)))"
    using smoothen_length [OF c(8)] 1 by (auto simp: window_def)
qed

lemma Kij_fits_projected_cong:
  "ids_L f' = ids_L f \<Longrightarrow> ids_R f' = ids_R f \<Longrightarrow> Kij f' = projected g (Kij f) \<Longrightarrow>
   Kij_fits f' = Kij_fits f"
  by (auto simp: Kij_fits_def NL_def NR_def list_all_length)

lemma process_chunk_ready:
  assumes "ready f" and "length velArray = NDOF f * chunkSize f"
  shows "\<exists>f3. process_chunk k velArray f = Continue f3 \<and> ready f3 \<and>
           fid f3 = fid f \<and> chunkSize f3 = chunkSize f \<and> NChunks f3 = NChunks f \<and>
           ids_L f3 = ids_L f \<and> ids_R f3 = ids_R f"
proof -
  have r: "ids_fit (ids_L f) (NDOF f)" "ids_fit (ids_R f) (NDOF f)"
     "\<not> (in_plane f \<and> out_of_plane f)" "Kij_fits f" "2 \<le> Nfreqs f" "length (oms_fft f) = Nfreqs f"
     "1 \<le> window f" "window f \<le> int (Nfreqs f)" "length (SHC_smooth f) = Nfreqs f"
     "length (SHC_smooth2 f) = Nfreqs f" "length (SHC_average f) = Nfreqs f" "\<not> exitFlag f"
    using assms(1) by (simp_all add: ready_def)
  have "\<exists>f2 SHC SHC_orig. chunk_curves velArray f = Curves f2 SHC SHC_orig"
    using assms(2) r by (intro chunk_curves_succeeds) (simp_all add: window_def)
  then obtain f2 SHC SHC_orig where c: "chunk_curves velArray f = Curves f2 SHC SHC_orig"
    by blast
  note fr = chunk_curves_frame [OF c]
  note len = chunk_curves_lengths [OF c]
  have "nat (window f) \<le> Nfreqs f" using r(7,8) by linarith
  then have "length (gauss_window (window f)) \<le> Nfreqs f"
    using r(5) by (simp add: length_gauss_window)
  then have lS: "length SHC = Nfreqs f" using len(2) by simp
  let ?n = "Nfreqs f"
  let ?f3 = "f2\<lparr>SHC_smooth := map (\<lambda>i. (real k * SHC_smooth f2 ! i + SHC ! i) / (real k + 1)) [0..<?n],
                SHC_smooth2 := map (\<lambda>i. (real k * SHC_smooth2 f2 ! i + (SHC ! i)^2) / (real k + 1)) [0..<?n],
                SHC_average := map (\<lambda>i. (real k * SHC_average f2 ! i + SHC_orig ! i) / (real k + 1)) [0..<?n]\<rparr>"
  have ta: "time_average k SHC SHC_orig f2 = Continue ?f3"
    using r lS len(1) by (intro time_average_Continue) (simp_all add: fr(1))
  have p: "process_chunk k velArray f = Continue ?f3"
    using c ta by (simp add: process_chunk_def)
  have "Kij_fits ?f3 = Kij_fits f"
    by (rule Kij_fits_projected_cong [where g = f]) (simp_all add: fr(1))
  then have "ready ?f3"
    unfolding ready_def using r
    by (simp add: fr(1) NDOF_def NL_def NR_def window_def)
  moreover have "fid ?f3 = fid f" "chunkSize ?f3 = chunkSize f" "NChunks ?f3 = NChunks f"
     "ids_L ?f3 = ids_L f" "ids_R ?f3 = ids_R f"
    by (simp_all add: fr(1))
  ultimately show ?thesis using p by blast
qed

lemma ready_update_fid [simp]: "ready (f\<lparr>fid := x\<rparr>) = ready f"
  by (simp add: ready_def NDOF_def NL_def NR_def Kij_fits_def window_def)

lemma ready_update_chunkSize [simp]: "ready (f\<lparr>chunkSize := x\<rparr>) = ready f"
  by (simp add: ready_def NDOF_def NL_def NR_def Kij_fits_def window_def)

lemma ready_update_NChunks [simp]: "ready (f\<lparr>NChunks := x\<rparr>) = ready f"
  by (simp add: ready_def NDOF_def NL_def NR_def Kij_fits_def window_def)

lemma NDOF_cong: "ids_L f' = ids_L f \<Longrightarrow> ids_R f' = ids_R f \<Longrightarrow> NDOF f' = NDOF f"
  by (simp add: NDOF_def NL_def NR_def)

lemma chunk_loop_step_full:
  assumes "ready f" and "0 < chunkSize f * NDOF f" and "chunkSize f * NDOF f \<le> length (fid f)"
  shows "\<exists>f3. chunk_loop (Suc n) k f = chunk_loop n (Suc k) f3 \<and> ready f3 \<and>
           fid f3 = drop (chunkSize f * NDOF f) (fid f) \<and> chunkSize f3 = chunkSize f \<and>
           NDOF f3 = NDOF f \<and> NChunks f3 = NChunks f"
proof -
  let ?c = "chunkSize f * NDOF f"
  let ?v = "take ?c (fid f)"
  let ?f1 = "f\<lparr>fid := drop ?c (fid f)\<rparr>"
  have len: "length ?v = ?c" using assms(3) by simp
  then have ne: "?v \<noteq> []" using assms(2) by (metis length_0_conv less_numeral_extra(3))
  have "\<exists>f3. process_chunk k ?v ?f1 = Continue f3 \<and> ready f3 \<and>
           fid f3 = fid ?f1 \<and> chunkSize f3 = chunkSize ?f1 \<and> NChunks f3 = NChunks ?f1 \<and>
           ids_L f3 = ids_L ?f1 \<and> ids_R f3 = ids_R ?f1"
    using assms(1) len by (intro process_chunk_ready) (simp_all add: NDOF_def NL_def NR_def mult.commute)
  then obtain f3 where f3: "process_chunk k ?v ?f1 = Continue f3" "ready f3"
      "fid f3 = drop ?c (fid f)" "chunkSize f3 = chunkSize f" "NChunks f3 = NChunks f"
      "ids_L f3 = ids_L f" "ids_R f3 = ids_R f"
    by auto
  have "chunk_loop (Suc n) k f = chunk_loop n (Suc k) f3"
    unfolding chunk_loop_full [OF ne len] f3(1) by simp
  moreover have "NDOF f3 = NDOF f" using f3(6,7) by (rule NDOF_cong)
  ultimately show ?thesis using f3 by blast
qed

lemma chunk_loop_all:
  assumes "ready f" and "0 < chunkSize f * NDOF f" and "n * (chunkSize f * NDOF f) \<le> length (fid f)"
  shows "\<exists>f'. chunk_loop n k f = Done f' \<and> ready f' \<and> NChunks f' = NChunks f \<and>
           fid f' = drop (n * (chunkSize f * NDOF f)) (fid f)"
  using assms
proof (induction n arbitrary: k f)
  case 0
  then show ?case by simp
next
  case (Suc n)
  let ?c = "chunkSize f * NDOF f"
  have le: "?c \<le> length (fid f)" using Suc.prems(3) by simp
  from chunk_loop_step_full [OF Suc.prems(1,2) le, of n k] obtain f3 where
    f3: "chunk_loop (Suc n) k f = chunk_loop n (Suc k) f3" "ready f3"
      "fid f3 = drop ?c (fid f)" "chunkSize f3 = chunkSize f" "NDOF f3 = NDOF f" "NChunks f3 = NChunks f"
    by blast
  have "\<exists>f'. chunk_loop n (Suc k) f3 = Done f' \<and> ready f' \<and> NChunks f' = NChunks f3 \<and>
           fid f' = drop (n * (chunkSize f3 * NDOF f3)) (fid f3)"
    using f3 Suc.prems by (intro Suc.IH) simp_all
  then show ?case
    unfolding f3(1) using f3 by (auto simp: add.commute)
qed

lemma chunk_loop_early:
  assumes "ready f" and "0 < chunkSize f * NDOF f"
    and "length (fid f) div (chunkSize f * NDOF f) = m" and "m < n" and "0 < k + m"
  shows "\<exists>f'. chunk_loop n k f = Done f' \<and> NChunks f' = int (k + m) - 1 \<and> ready f'"
  using assms
proof (induction m arbitrary: n k f)
  case 0
  let ?c = "chunkSize f * NDOF f"
  let ?v = "take ?c (fid f)"
  obtain n' where n: "n = Suc n'" using "0.prems"(4) by (cases n) auto
  have lt: "length (fid f) < ?c"
    using "0.prems"(2,3) by (simp add: div_eq_0_iff)
  have k: "0 < k" using "0.prems"(5) by simp
  show ?case
  proof (cases "?v = []")
    case True
    show ?thesis unfolding n chunk_loop_empty [OF True] using "0.prems"(1) by simp
  next
    case False
    have "length ?v \<noteq> ?c" using lt by simp
    from chunk_loop_short_later [OF False this k]
    show ?thesis unfolding n using "0.prems"(1) by simp
  qed
next
  case (Suc m)
  let ?c = "chunkSize f * NDOF f"
  obtain n' where n: "n = Suc n'" using Suc.prems(4) by (cases n) auto
  have le: "?c \<le> length (fid f)"
  proof (rule ccontr)
    assume "\<not> ?c \<le> length (fid f)"
    then have "length (fid f) div ?c = 0" by simp
    then show False using Suc.prems(3) by simp
  qed
  from chunk_loop_step_full [OF Suc.prems(1,2) le, of n' k] obtain f3 where
    f3: "chunk_loop (Suc n') k f = chunk_loop n' (Suc k) f3" "ready f3"
      "fid f3 = drop ?c (fid f)" "chunkSize f3 = chunkSize f" "NDOF f3 = NDOF f" "NChunks f3 = NChunks f"
    by blast
  have d: "length (fid f3) div (chunkSize f3 * NDOF f3) = m"
  proof -
    have "(length (fid f) - ?c) div ?c = length (fid f) div ?c - 1"
      using le Suc.prems(2) by (metis div_if less_numeral_extra(3) not_less add_diff_cancel_right' plus_1_eq_Suc add.commute)
    then show ?thesis using f3 Suc.prems(3) by simp
  qed
  have "\<exists>f'. chunk_loop n' (Suc k) f3 = Done f' \<and> NChunks f' = int (Suc k + m) - 1 \<and> ready f'"
    using f3 Suc.prems d n by (intro Suc.IH) simp_all
  then show ?case unfolding n f3(1) by simp
qed


lemma error_estimate_ready:
  assumes "ready f"
  shows "error_estimate f =
     Done (f\<lparr>SHC_error :=
        (if NChunks f > 1
         then Some (map (\<lambda>v. sqrt v / sqrt (real_of_int (NChunks f)))
                (map2 (\<lambda>m2 m. (real_of_int (NChunks f) / (real_of_int (NChunks f) - 1)) * (m2 - m ^ 2))
                   (SHC_smooth2 f) (SHC_smooth f)))
         else None)\<rparr>)"
proof -
  have "length (SHC_smooth2 f) = length (SHC_smooth f)"
    using assms by (simp add: ready_def)
  then show ?thesis
    by (simp add: error_estimate_def np_broadcast2_def)
qed

lemma start_loop_fields [simp]:
  "fid (start_loop f oms) = fid f" "chunkSize (start_loop f oms) = chunkSize f"
  "ids_L (start_loop f oms) = ids_L f" "ids_R (start_loop f oms) = ids_R f"
  "NChunks (start_loop f oms) = NChunks f" "Kij (start_loop f oms) = Kij f"
  "in_plane (start_loop f oms) = in_plane f" "out_of_plane (start_loop f oms) = out_of_plane f"
  "oms_fft (start_loop f oms) = oms" "Nfreqs (start_loop f oms) = length oms"
  "SHC_smooth (start_loop f oms) = replicate (length oms) 0"
  "SHC_smooth2 (start_loop f oms) = replicate (length oms) 0"
  "SHC_average (start_loop f oms) = replicate (length oms) 0"
  "exitFlag (start_loop f oms) = False" "SHC_error (start_loop f oms) = SHC_error f"
  "sampleTimestep (start_loop f oms) = sampleTimestep f" "widthWin (start_loop f oms) = widthWin f"
  "scaleFactor (start_loop f oms) = scaleFactor f"
  by (simp_all add: start_loop_def)

lemma start_loop_ready:
  assumes "ids_fit (ids_L s) (NDOF s)" and "ids_fit (ids_R s) (NDOF s)"
    and "\<not> (in_plane s \<and> out_of_plane s)"
    and "length (Kij s) = 3 * NL s" and "list_all (\<lambda>row. length row = 3 * NR s) (Kij s)"
    and "2 \<le> length oms"
    and "1 \<le> window (start_loop (open_file s file) oms)"
    and "window (start_loop (open_file s file) oms) \<le> int (length oms)"
  shows "ready (start_loop (open_file s file) oms)"
  using assms
  by (simp add: ready_def Kij_fits_def NDOF_def NL_def NR_def)

lemma NDOF_start [simp]: "NDOF (start_loop (open_file s file) oms) = NDOF s"
  by (simp add: NDOF_def NL_def NR_def)

lemma postProcess_early_end:
  assumes "header_ok s file"
    and "angular_grid (chunkSize s) (sampleTimestep s) = Inr oms"
    and "ready (start_loop (open_file s file) oms)"
    and "0 < chunkSize s * NDOF s"
    and "length (velocities file) div (chunkSize s * NDOF s) = m"
    and "0 < m" and "m < nat (NChunks s)"
  shows "\<exists>f'. postProcess s file = Done f' \<and> NChunks f' = int m - 1 \<and>
           (m \<le> 2 \<longrightarrow> SHC_error f' = None)"
proof -
  let ?f = "start_loop (open_file s file) oms"
  have "\<exists>f'. chunk_loop (nat (NChunks s)) 0 ?f = Done f' \<and> NChunks f' = int (0 + m) - 1 \<and> ready f'"
    using assms by (intro chunk_loop_early) simp_all
  then obtain f1 where f1: "chunk_loop (nat (NChunks s)) 0 ?f = Done f1" "NChunks f1 = int m - 1" "ready f1"
    by auto
  have "postProcess s file = error_estimate f1"
    unfolding postProcess_loop [OF assms(1,2)] f1(1) by simp
  then show ?thesis
    unfolding error_estimate_ready [OF f1(3)] using f1(2) by auto
qed

lemma demo_ready: "ready (start_loop (open_file (demo\<lparr>NChunks := n\<rparr>) file) [0, pi / 2, pi])"
  by (rule start_loop_ready)
     (simp_all add: demo_def ids_fit_def NDOF_def NL_def NR_def window_def window_size_def)

lemma demo_header: "header_ok (demo\<lparr>NChunks := n\<rparr>) (demo_file vs)"
  by (simp add: header_ok_def demo_def demo_file_def NL_def NR_def eval_nat_numeral)

lemma demo_grid: "angular_grid (chunkSize (demo\<lparr>NChunks := n\<rparr>)) (sampleTimestep (demo\<lparr>NChunks := n\<rparr>)) = Inr [0, pi / 2, pi]"
  by (simp add: demo_def angular_grid_demo)

lemma demo_count: "chunkSize (demo\<lparr>NChunks := n\<rparr>) * NDOF (demo\<lparr>NChunks := n\<rparr>) = 24"
  by (simp add: demo_def NDOF_def NL_def NR_def)

lemma length_demo_chunk: "length demo_chunk = 24"
  by (simp add: demo_chunk_def)

lemma demo_velocities [simp]: "velocities (demo_file vs) = vs"
  by (simp add: demo_file_def)

lemma demo_requested [simp]: "NChunks (demo\<lparr>NChunks := n\<rparr>) = n"
  by simp

text \<open>
  C2, at a failing input. Three full chunks are folded in, the fourth read is short, and
  line 369 stores \<open>k - 1 = 2\<close> in \<^verbatim>\<open>NChunks\<close>, not the 3 chunks completed.
\<close>

theorem early_end_reports_one_less:
  "is_Done (postProcess five_demo three_and_partial) \<and>
   NChunks (final (postProcess five_demo three_and_partial)) = 2"
proof -
  have l: "length (demo_chunk @ demo_chunk @ demo_chunk @ [1, 2, 3, 4, 5, 6 :: real]) = 78"
    by (simp add: length_demo_chunk)
  have "\<exists>f'. postProcess five_demo three_and_partial = Done f' \<and> NChunks f' = int 3 - 1 \<and>
           ((3::nat) \<le> 2 \<longrightarrow> SHC_error f' = None)"
    unfolding five_demo_def three_and_partial_def
  proof (rule postProcess_early_end [OF demo_header demo_grid demo_ready])
    show "0 < chunkSize (demo\<lparr>NChunks := 5\<rparr>) * NDOF (demo\<lparr>NChunks := 5\<rparr>)"
      unfolding demo_count by simp
    show "length (velocities (demo_file (demo_chunk @ demo_chunk @ demo_chunk @ [1, 2, 3, 4, 5, 6]))) div
          (chunkSize (demo\<lparr>NChunks := 5\<rparr>) * NDOF (demo\<lparr>NChunks := 5\<rparr>)) = 3"
      unfolding demo_count demo_velocities l by simp
    show "(0::nat) < 3" by simp
    show "3 < nat (NChunks (demo\<lparr>NChunks := 5\<rparr>))"
      unfolding demo_requested by simp
  qed
  then show ?thesis by auto
qed

text \<open>
  C5, at a failing input. Two full chunks are folded in, the third read is empty, and line
  363 stores \<open>k - 1 = 1\<close> in \<^verbatim>\<open>NChunks\<close>: the test of line 455 fails and the error
  output is \<^verbatim>\<open>None\<close>, although two chunks were folded in.
\<close>

theorem two_chunks_no_error_estimate:
  "is_Done (postProcess five_demo two_chunks) \<and>
   NChunks (final (postProcess five_demo two_chunks)) = 1 \<and>
   SHC_error (final (postProcess five_demo two_chunks)) = None"
proof -
  have l: "length (demo_chunk @ demo_chunk) = 48"
    by (simp add: length_demo_chunk)
  have "\<exists>f'. postProcess five_demo two_chunks = Done f' \<and> NChunks f' = int 2 - 1 \<and>
           ((2::nat) \<le> 2 \<longrightarrow> SHC_error f' = None)"
    unfolding five_demo_def two_chunks_def
  proof (rule postProcess_early_end [OF demo_header demo_grid demo_ready])
    show "0 < chunkSize (demo\<lparr>NChunks := 5\<rparr>) * NDOF (demo\<lparr>NChunks := 5\<rparr>)"
      unfolding demo_count by simp
    show "length (velocities (demo_file (demo_chunk @ demo_chunk))) div
          (chunkSize (demo\<lparr>NChunks := 5\<rparr>) * NDOF (demo\<lparr>NChunks := 5\<rparr>)) = 2"
      unfolding demo_count demo_velocities l by simp
    show "(0::nat) < 2" by simp
    show "2 < nat (NChunks (demo\<lparr>NChunks := 5\<rparr>))"
      unfolding demo_requested by simp
  qed
  then show ?thesis by auto
qed

lemma Kij_error_estimate: "Kij (final (error_estimate f)) = Kij f"
  by (auto simp: error_estimate_def split: sum.splits)

lemma K_kept_projected:
  "K_kept f g \<Longrightarrow> Kij g = projected f (Kij f) \<or> Kij g = Kij f"
  by (auto simp: K_kept_def)

lemma projected_no_flags: "\<not> in_plane f \<Longrightarrow> \<not> out_of_plane f \<Longrightarrow> projected f m = m"
  by (simp add: projected_def)

lemma force_constants_kept:
  "(\<not> in_plane s \<and> \<not> out_of_plane s \<longrightarrow> Kij (final (postProcess s file)) = Kij s) \<and>
   (Kij (final (postProcess s file)) = Kij s \<or>
    Kij (final (postProcess s file)) = projected (open_file s file) (Kij s)) \<and>
   (\<not> in_plane f \<and> \<not> out_of_plane f \<longrightarrow> Kij (after (chunk_curves velArray f)) = Kij f) \<and>
   (Kij (after (chunk_curves velArray f)) = Kij f \<or>
    Kij (after (chunk_curves velArray f)) = projected f (Kij f))"
proof -
  have 1: "K_kept (open_file s file) (final (postProcess s file))"
    by (rule K_kept_postProcess)
  have 2: "K_kept f (after (chunk_curves velArray f))"
    by (rule K_kept_chunk_curves)
  show ?thesis
    using 1 2 projected_no_flags [of "open_file s file" "Kij s"] projected_no_flags [of f "Kij f"]
    by (auto simp: K_kept_def)
qed

lemma out_demo_header: "header_ok out_demo (demo_file vs)"
  by (simp add: header_ok_def out_demo_def demo_def demo_file_def NL_def NR_def eval_nat_numeral)

lemma out_demo_grid: "angular_grid (chunkSize out_demo) (sampleTimestep out_demo) = Inr [0, pi / 2, pi]"
  by (simp add: out_demo_def demo_def angular_grid_demo)

lemma out_demo_ready: "ready (start_loop (open_file out_demo file) [0, pi / 2, pi])"
  by (rule start_loop_ready)
     (simp_all add: out_demo_def demo_def ids_fit_def NDOF_def NL_def NR_def window_def window_size_def)

lemma out_demo_count: "chunkSize out_demo * NDOF out_demo = 24"
  by (simp add: out_demo_def demo_def NDOF_def NL_def NR_def)

lemma NDOF_update_fid [simp]: "NDOF (f\<lparr>fid := x\<rparr>) = NDOF f"
  by (simp add: NDOF_def NL_def NR_def)

lemma chunk_curves_ready:
  assumes "ready f" and "length velArray = NDOF f * chunkSize f"
  shows "\<exists>f2 SHC SHC_orig. chunk_curves velArray f = Curves f2 SHC SHC_orig"
  using assms by (intro chunk_curves_succeeds) (simp_all add: ready_def window_def)

lemma postProcess_all:
  assumes "header_ok s file"
    and "angular_grid (chunkSize s) (sampleTimestep s) = Inr oms"
    and "ready (start_loop (open_file s file) oms)"
    and "0 < chunkSize s * NDOF s"
    and "nat (NChunks s) * (chunkSize s * NDOF s) \<le> length (velocities file)"
  shows "\<exists>f1. chunk_loop (nat (NChunks s)) 0 (start_loop (open_file s file) oms) = Done f1 \<and>
           ready f1 \<and> NChunks f1 = NChunks s \<and> postProcess s file = error_estimate f1"
proof -
  let ?f = "start_loop (open_file s file) oms"
  have "\<exists>f'. chunk_loop (nat (NChunks s)) 0 ?f = Done f' \<and> ready f' \<and> NChunks f' = NChunks ?f \<and>
           fid f' = drop (nat (NChunks s) * (chunkSize ?f * NDOF ?f)) (fid ?f)"
    using assms by (intro chunk_loop_all) simp_all
  then obtain f1 where f1: "chunk_loop (nat (NChunks s)) 0 ?f = Done f1" "ready f1" "NChunks f1 = NChunks s"
    by auto
  have "postProcess s file = error_estimate f1"
    unfolding postProcess_loop [OF assms(1,2)] f1(1) by simp
  then show ?thesis using f1 by blast
qed

text \<open>
  C10, as the code has it. With no projection flag set, \<^verbatim>\<open>Kij\<close> after \<^verbatim>\<open>postProcess\<close>,
  however it ends, is \<^verbatim>\<open>Kij\<close> as loaded, and processing a chunk leaves it as it was.
  With a projection flag set, \<^verbatim>\<open>_differ_direction\<close> writes into \<^verbatim>\<open>Kij\<close>: afterwards it
  is the loaded matrix, or that matrix with the rows of the dropped axes set to zero.
\<close>

theorem force_constants_after_postProcess:
  "(\<not> in_plane s \<and> \<not> out_of_plane s \<longrightarrow> Kij (final (postProcess s file)) = Kij s) \<and>
   (Kij (final (postProcess s file)) = Kij s \<or>
    Kij (final (postProcess s file)) = projected (open_file s file) (Kij s)) \<and>
   (\<not> in_plane f \<and> \<not> out_of_plane f \<longrightarrow> Kij (after (chunk_curves velArray f)) = Kij f) \<and>
   (Kij (after (chunk_curves velArray f)) = Kij f \<or>
    Kij (after (chunk_curves velArray f)) = projected f (Kij f))"
  by (rule force_constants_kept)

theorem force_constants_after_postProcess_witness:
  "\<not> in_plane demo \<and> \<not> out_of_plane demo \<and>
   Kij (final (postProcess demo (demo_file demo_chunk))) = Kij demo \<and>
   \<not> in_plane demo_frame \<and> \<not> out_of_plane demo_frame \<and>
   Kij (after (chunk_curves demo_chunk demo_frame)) = Kij demo_frame"
proof -
  have 1: "\<not> in_plane demo \<and> \<not> out_of_plane demo" by (simp add: demo_def)
  have 2: "\<not> in_plane demo_frame \<and> \<not> out_of_plane demo_frame" by (simp add: demo_frame_fields)
  show ?thesis
    using force_constants_after_postProcess [of demo "demo_file demo_chunk" demo_frame demo_chunk] 1 2
    by blast
qed

text \<open>
  C10 as stated fails: with the out-of-plane projection the run completes and leaves
  \<^verbatim>\<open>Kij\<close> all zero, while the loaded matrix has a 1 in its first row.
\<close>

theorem force_constants_projected_counterexample:
  "is_Done (postProcess out_demo (demo_file demo_chunk)) \<and>
   Kij (final (postProcess out_demo (demo_file demo_chunk))) \<noteq> Kij out_demo"
proof -
  let ?f = "start_loop (open_file out_demo (demo_file demo_chunk)) [0, pi / 2, pi]"
  have n: "nat (NChunks out_demo) = Suc 0" by (simp add: out_demo_def demo_def)
  have "\<exists>f1. chunk_loop (nat (NChunks out_demo)) 0 ?f = Done f1 \<and>
           ready f1 \<and> NChunks f1 = NChunks out_demo \<and>
           postProcess out_demo (demo_file demo_chunk) = error_estimate f1"
    by (rule postProcess_all [OF out_demo_header out_demo_grid out_demo_ready])
       (simp_all add: out_demo_count n length_demo_chunk)
  then obtain f1 where f1: "chunk_loop (Suc 0) 0 ?f = Done f1" "ready f1"
      "postProcess out_demo (demo_file demo_chunk) = error_estimate f1"
    unfolding n by blast
  have c: "chunkSize ?f * NDOF ?f = 24" by (simp add: out_demo_count)
  have t: "take 24 (fid ?f) = demo_chunk" "drop 24 (fid ?f) = []"
    by (simp_all add: length_demo_chunk)
  have "\<exists>f2 SHC SHC_orig. chunk_curves demo_chunk (?f\<lparr>fid := []\<rparr>) = Curves f2 SHC SHC_orig"
  proof (rule chunk_curves_ready)
    show "ready (?f\<lparr>fid := []\<rparr>)" by (simp add: out_demo_ready)
    show "length demo_chunk = NDOF (?f\<lparr>fid := []\<rparr>) * chunkSize (?f\<lparr>fid := []\<rparr>)"
      using out_demo_count by (simp add: length_demo_chunk mult.commute)
  qed
  then obtain f2 SHC SHC_orig where
    cc: "chunk_curves demo_chunk (?f\<lparr>fid := []\<rparr>) = Curves f2 SHC SHC_orig" by blast
  have "Kij (final (chunk_loop (Suc 0) 0 ?f)) = projected ?f (Kij ?f)"
    by (rule Kij_after_first_chunk [where ?f2.0 = f2 and SHC = SHC and SHC_orig = SHC_orig])
       (simp_all only: c t cc, simp_all add: length_demo_chunk demo_chunk_def)
  then have "Kij f1 = projected ?f (Kij ?f)" using f1(1) by simp
  also have "\<dots> = [[0, 0, 0], [0, 0, 0], [0, 0, 0]]"
    by (simp add: projected_def out_demo_def demo_def zero_rows_def upt_rec)
  finally have "Kij (final (postProcess out_demo (demo_file demo_chunk))) = [[0, 0, 0], [0, 0, 0], [0, 0, 0]]"
    unfolding f1(3) Kij_error_estimate .
  moreover have "is_Done (postProcess out_demo (demo_file demo_chunk))"
    unfolding f1(3) error_estimate_ready [OF f1(2)] by simp
  ultimately show ?thesis by (simp add: out_demo_def demo_def)
qed

lemma chunk_loop_no_data:
  assumes "fid f = []"
  shows "chunk_loop n k f = Done (if n = 0 then f else f\<lparr>fid := [], NChunks := int k - 1\<rparr>)"
proof (cases n)
  case 0
  then show ?thesis by simp
next
  case (Suc n')
  have "take (chunkSize f * NDOF f) (fid f) = []" using assms by simp
  from chunk_loop_empty [OF this, of n' k] show ?thesis
    using Suc assms by simp
qed

lemma empty_stream:
  assumes "header_ok s file"
    and "angular_grid (chunkSize s) (sampleTimestep s) = Inr oms"
    and "velocities file = []"
  shows "is_Done (postProcess s file) \<and>
         oms_fft (final (postProcess s file)) = oms \<and>
         SHC_smooth (final (postProcess s file)) = replicate (length oms) 0 \<and>
         SHC_smooth2 (final (postProcess s file)) = replicate (length oms) 0 \<and>
         SHC_average (final (postProcess s file)) = replicate (length oms) 0 \<and>
         SHC_error (final (postProcess s file)) = None"
proof -
  let ?f = "start_loop (open_file s file) oms"
  let ?g = "if nat (NChunks s) = 0 then ?f else ?f\<lparr>fid := [], NChunks := int 0 - 1\<rparr>"
  have "fid ?f = []" using assms(3) by simp
  then have l: "chunk_loop (nat (NChunks s)) 0 ?f = Done ?g"
    by (rule chunk_loop_no_data)
  have n: "\<not> NChunks ?g > 1" by simp
  have p: "postProcess s file = error_estimate ?g"
    unfolding postProcess_loop [OF assms(1,2)] l by simp
  have e: "error_estimate ?g = Done (?g\<lparr>SHC_error := None\<rparr>)"
    using n unfolding error_estimate_def by (simp only: if_False)
  show ?thesis unfolding p e by simp
qed


lemma plain_demo_header: "header_ok demo (demo_file vs)"
  using demo_header [of 1 vs] by (simp add: demo_def)

lemma plain_demo_grid: "angular_grid (chunkSize demo) (sampleTimestep demo) = Inr [0, pi / 2, pi]"
  by (simp add: demo_def angular_grid_demo)

text \<open>
  C4, as the code has it. When the first read returns no sample, nothing is raised: the run
  completes, the running arrays are the zero arrays of the length of the grid, and the
  error output is \<^verbatim>\<open>None\<close>.
\<close>

theorem empty_first_read_completes:
  assumes "header_ok s file"
    and "angular_grid (chunkSize s) (sampleTimestep s) = Inr oms"
    and "velocities file = []"
  shows "is_Done (postProcess s file) \<and>
         oms_fft (final (postProcess s file)) = oms \<and>
         SHC_smooth (final (postProcess s file)) = replicate (length oms) 0 \<and>
         SHC_smooth2 (final (postProcess s file)) = replicate (length oms) 0 \<and>
         SHC_average (final (postProcess s file)) = replicate (length oms) 0 \<and>
         SHC_error (final (postProcess s file)) = None"
  using assms by (rule empty_stream)

theorem empty_first_read_completes_witness:
  "header_ok demo (demo_file []) \<and>
   angular_grid (chunkSize demo) (sampleTimestep demo) = Inr [0, pi / 2, pi] \<and>
   velocities (demo_file []) = [] \<and>
   is_Done (postProcess demo (demo_file [])) \<and>
   SHC_smooth (final (postProcess demo (demo_file []))) = [0, 0, 0] \<and>
   SHC_error (final (postProcess demo (demo_file []))) = None"
  using empty_first_read_completes [OF plain_demo_header plain_demo_grid, of "[]"]
    plain_demo_header [of "[]"] plain_demo_grid
  by (simp add: numeral_3_eq_3)

text \<open>
  C4 as stated fails: on the empty stream the run of the small interface completes
  instead of raising.
\<close>

theorem no_usable_data_counterexample:
  "is_Done (postProcess demo (demo_file []))"
  using empty_stream [OF plain_demo_header plain_demo_grid, of "[]"] by simp

lemma both_demo_header: "header_ok both_demo (demo_file vs)"
  by (simp add: header_ok_def both_demo_def demo_def demo_file_def NL_def NR_def eval_nat_numeral)

lemma both_demo_grid: "angular_grid (chunkSize both_demo) (sampleTimestep both_demo) = Inr [0, pi / 2, pi]"
  using plain_demo_grid by (simp add: both_demo_def)

text \<open>
  C7 as stated fails: with both projection flags set and an empty stream, the run
  completes and no configuration error is raised.
\<close>

theorem both_flags_counterexample:
  "in_plane both_demo \<and> out_of_plane both_demo \<and> is_Done (postProcess both_demo (demo_file []))"
  using empty_stream [OF both_demo_header both_demo_grid, of "[]"] by (simp add: both_demo_def)

lemma differ_direction_both:
  "in_plane f \<Longrightarrow> out_of_plane f \<Longrightarrow>
   (if in_plane f \<or> out_of_plane f then differ_direction f else Done f) = Raised AttributeError_direction f"
  by (simp add: differ_direction_def)

lemma chunk_curves_both:
  assumes "in_plane f" and "out_of_plane f"
    and "length velArray = NDOF f * chunkSize f"
    and "ids_fit (ids_L f) (NDOF f)" and "ids_fit (ids_R f) (NDOF f)"
  shows "chunk_curves velArray f =
     Failed AttributeError_direction
       (f\<lparr>velsL := gather (scaled_fft (sampleTimestep f) (chunk_rows velArray (NDOF f) (chunkSize f))) (ids_L f),
          velsR := gather (scaled_fft (sampleTimestep f) (chunk_rows velArray (NDOF f) (chunkSize f))) (ids_R f)\<rparr>)"
proof -
  let ?f1 = "f\<lparr>velsL := gather (scaled_fft (sampleTimestep f) (chunk_rows velArray (NDOF f) (chunkSize f))) (ids_L f),
          velsR := gather (scaled_fft (sampleTimestep f) (chunk_rows velArray (NDOF f) (chunkSize f))) (ids_R f)\<rparr>"
  have t: "transform_chunk velArray f = Done ?f1"
    using assms(3-5) by (rule transform_chunk_Done)
  have "(if in_plane ?f1 \<or> out_of_plane ?f1 then differ_direction ?f1 else Done ?f1) = Raised AttributeError_direction ?f1"
    using assms(1,2) by (intro differ_direction_both) simp_all
  then show ?thesis
    unfolding chunk_curves_def t by simp
qed

lemma both_flags_first_chunk:
  assumes "in_plane s" and "out_of_plane s"
    and "header_ok s file"
    and "angular_grid (chunkSize s) (sampleTimestep s) = Inr oms"
    and "0 < NChunks s"
    and "0 < chunkSize s * NDOF s"
    and "chunkSize s * NDOF s \<le> length (velocities file)"
    and "ids_fit (ids_L s) (NDOF s)" and "ids_fit (ids_R s) (NDOF s)"
  shows "postProcess s file =
     Raised AttributeError_direction
       ((start_loop (open_file s file) oms)
          \<lparr>fid := drop (chunkSize s * NDOF s) (velocities file),
           velsL := gather (scaled_fft (sampleTimestep s)
                      (chunk_rows (take (chunkSize s * NDOF s) (velocities file)) (NDOF s) (chunkSize s))) (ids_L s),
           velsR := gather (scaled_fft (sampleTimestep s)
                      (chunk_rows (take (chunkSize s * NDOF s) (velocities file)) (NDOF s) (chunkSize s))) (ids_R s)\<rparr>)"
proof -
  let ?f = "start_loop (open_file s file) oms"
  let ?c = "chunkSize s * NDOF s"
  let ?v = "take ?c (velocities file)"
  let ?f1 = "?f\<lparr>fid := drop ?c (velocities file)\<rparr>"
  obtain n where n: "nat (NChunks s) = Suc n"
    using assms(5) by (cases "nat (NChunks s)") auto
  have c: "chunkSize ?f * NDOF ?f = ?c" by simp
  have len: "length ?v = ?c" using assms(7) by simp
  then have ne: "?v \<noteq> []" using assms(6) by (metis length_0_conv less_numeral_extra(3))
  have cc: "chunk_curves ?v ?f1 =
     Failed AttributeError_direction
       (?f1\<lparr>velsL := gather (scaled_fft (sampleTimestep ?f1) (chunk_rows ?v (NDOF ?f1) (chunkSize ?f1))) (ids_L ?f1),
          velsR := gather (scaled_fft (sampleTimestep ?f1) (chunk_rows ?v (NDOF ?f1) (chunkSize ?f1))) (ids_R ?f1)\<rparr>)"
    using assms(1,2,8,9) len by (intro chunk_curves_both) (simp_all add: mult.commute)
  have "chunk_loop (Suc n) 0 ?f =
     (case process_chunk 0 (take (chunkSize ?f * NDOF ?f) (fid ?f))
             (?f\<lparr>fid := drop (chunkSize ?f * NDOF ?f) (fid ?f)\<rparr>) of
        Throw e f3 \<Rightarrow> Raised e f3
      | Break f3 \<Rightarrow> Done f3
      | Continue f3 \<Rightarrow> chunk_loop n (Suc 0) f3)"
    by (rule chunk_loop_full) (use ne len in \<open>simp_all\<close>)
  then have "chunk_loop (Suc n) 0 ?f =
      Raised AttributeError_direction
       (?f1\<lparr>velsL := gather (scaled_fft (sampleTimestep ?f1) (chunk_rows ?v (NDOF ?f1) (chunkSize ?f1))) (ids_L ?f1),
          velsR := gather (scaled_fft (sampleTimestep ?f1) (chunk_rows ?v (NDOF ?f1) (chunkSize ?f1))) (ids_R ?f1)\<rparr>)"
    by (simp add: process_chunk_def cc)
  then show ?thesis
    unfolding postProcess_loop [OF assms(3,4)] n by simp
qed


text \<open>
  C7, as the code has it. With both projection flags set, a header that checks, and a first
  chunk read in full whose atom rows exist, the run raises the error of line 293 in the
  first iteration: by then the chunk has been read and its scaled FFT stored in
  \<^verbatim>\<open>velsL\<close> and \<^verbatim>\<open>velsR\<close>; no spectral value has been folded in (the running arrays
  are still zero), the error output is untouched and \<^verbatim>\<open>Kij\<close> is as loaded.
\<close>

theorem both_flags_raise_in_first_chunk:
  assumes "in_plane s" and "out_of_plane s"
    and "header_ok s file"
    and "angular_grid (chunkSize s) (sampleTimestep s) = Inr oms"
    and "0 < NChunks s"
    and "0 < chunkSize s * NDOF s"
    and "chunkSize s * NDOF s \<le> length (velocities file)"
    and "ids_fit (ids_L s) (NDOF s)" and "ids_fit (ids_R s) (NDOF s)"
  shows "\<not> is_Done (postProcess s file) \<and>
         raised (postProcess s file) = AttributeError_direction \<and>
         fid (final (postProcess s file)) = drop (chunkSize s * NDOF s) (velocities file) \<and>
         velsL (final (postProcess s file)) =
           gather (scaled_fft (sampleTimestep s)
             (chunk_rows (take (chunkSize s * NDOF s) (velocities file)) (NDOF s) (chunkSize s))) (ids_L s) \<and>
         velsR (final (postProcess s file)) =
           gather (scaled_fft (sampleTimestep s)
             (chunk_rows (take (chunkSize s * NDOF s) (velocities file)) (NDOF s) (chunkSize s))) (ids_R s) \<and>
         SHC_smooth (final (postProcess s file)) = replicate (length oms) 0 \<and>
         SHC_smooth2 (final (postProcess s file)) = replicate (length oms) 0 \<and>
         SHC_average (final (postProcess s file)) = replicate (length oms) 0 \<and>
         SHC_error (final (postProcess s file)) = SHC_error s \<and>
         Kij (final (postProcess s file)) = Kij s"
  unfolding both_flags_first_chunk [OF assms] by simp

theorem both_flags_raise_in_first_chunk_witness:
  "in_plane both_demo \<and> out_of_plane both_demo \<and> header_ok both_demo (demo_file demo_chunk) \<and>
   0 < NChunks both_demo \<and>
   chunkSize both_demo * NDOF both_demo \<le> length (velocities (demo_file demo_chunk)) \<and>
   \<not> is_Done (postProcess both_demo (demo_file demo_chunk)) \<and>
   raised (postProcess both_demo (demo_file demo_chunk)) = AttributeError_direction \<and>
   fid (final (postProcess both_demo (demo_file demo_chunk))) = [] \<and>
   length (velsL (final (postProcess both_demo (demo_file demo_chunk)))) = 3 \<and>
   SHC_smooth (final (postProcess both_demo (demo_file demo_chunk))) = [0, 0, 0] \<and>
   Kij (final (postProcess both_demo (demo_file demo_chunk))) = Kij both_demo"
proof -
  have f: "in_plane both_demo" "out_of_plane both_demo" "0 < NChunks both_demo"
    by (simp_all add: both_demo_def demo_def)
  have c: "chunkSize both_demo * NDOF both_demo = 24"
    by (simp add: both_demo_def demo_def NDOF_def NL_def NR_def)
  have i: "ids_fit (ids_L both_demo) (NDOF both_demo)" "ids_fit (ids_R both_demo) (NDOF both_demo)"
    by (simp_all add: both_demo_def demo_def ids_fit_def NDOF_def NL_def NR_def)
  have l: "chunkSize both_demo * NDOF both_demo \<le> length (velocities (demo_file demo_chunk))"
    "0 < chunkSize both_demo * NDOF both_demo"
    unfolding c by (simp_all add: length_demo_chunk)
  have d: "drop 24 demo_chunk = []" by (simp add: length_demo_chunk)
  have n: "length (ids_L both_demo) = 1" by (simp add: both_demo_def demo_def)
  show ?thesis
    using both_flags_raise_in_first_chunk
      [OF f(1,2) both_demo_header both_demo_grid f(3) l(2,1) i] f l(1) both_demo_header [of demo_chunk]
    by (simp add: c d n numeral_3_eq_3)
qed



lemma reshape_fails:
  assumes "length velArray \<noteq> NDOF f * chunkSize f"
  shows "process_chunk k velArray f = Throw ValueError_reshape f"
  using assms by (simp add: process_chunk_def chunk_curves_def transform_chunk_def reshape_F_def)

text \<open>
  C9, at a failing input. The first read returns seven samples for six degrees of freedom:
  line 367 sets the chunk size to \<open>7 div 6 = 1\<close>, the grid is rebuilt, and the reshape
  of line 379 to six rows of one sample raises on the seven samples.
\<close>

theorem short_first_read_raises:
  "\<not> is_Done (postProcess five_demo seven_samples) \<and>
   raised (postProcess five_demo seven_samples) = ValueError_reshape"
proof -
  let ?f = "start_loop (open_file five_demo seven_samples) [0, pi / 2, pi]"
  have h: "header_ok five_demo seven_samples"
    unfolding five_demo_def seven_samples_def by (rule demo_header)
  have g: "angular_grid (chunkSize five_demo) (sampleTimestep five_demo) = Inr [0, pi / 2, pi]"
    unfolding five_demo_def by (rule demo_grid)
  have c: "chunkSize ?f * NDOF ?f = 24" "NDOF ?f = 6" "sampleTimestep ?f = 1"
    using demo_count [of 5] by (simp_all add: five_demo_def demo_def NDOF_def NL_def NR_def)
  have v: "take 24 (fid ?f) = [1, 2, 3, 4, 5, 6, 7]"
    by (simp add: seven_samples_def)
  have n: "nat (NChunks five_demo) = Suc 4" by (simp add: five_demo_def)
  have a: "angular_grid (length [1, 2, 3, 4, 5, 6, 7 :: real] div 6) 1 = Inr [0]"
    by (simp add: angular_grid_def rfftfreq_def)
  have s: "chunk_loop (Suc 4) 0 ?f =
     (case angular_grid (length (take (chunkSize ?f * NDOF ?f) (fid ?f)) div NDOF ?f) (sampleTimestep ?f) of
        Inl e \<Rightarrow> Raised e (?f\<lparr>fid := drop (chunkSize ?f * NDOF ?f) (fid ?f),
                 chunkSize := length (take (chunkSize ?f * NDOF ?f) (fid ?f)) div NDOF ?f, exitFlag := True\<rparr>)
      | Inr oms \<Rightarrow>
          (case process_chunk 0 (take (chunkSize ?f * NDOF ?f) (fid ?f))
                  (?f\<lparr>fid := drop (chunkSize ?f * NDOF ?f) (fid ?f),
                     chunkSize := length (take (chunkSize ?f * NDOF ?f) (fid ?f)) div NDOF ?f,
                     exitFlag := True, oms_fft := oms, Nfreqs := length oms\<rparr>) of
             Throw e f3 \<Rightarrow> Raised e f3
           | Break f3 \<Rightarrow> Done f3
           | Continue f3 \<Rightarrow> chunk_loop 4 (Suc 0) f3))"
    by (rule chunk_loop_short_first) (simp_all only: c(1) v, simp_all)
  let ?g = "?f\<lparr>fid := drop 24 (fid ?f), chunkSize := length [1, 2, 3, 4, 5, 6, 7 :: real] div 6,
               exitFlag := True, oms_fft := [0], Nfreqs := length [0 :: real]\<rparr>"
  have p: "process_chunk 0 [1, 2, 3, 4, 5, 6, 7] ?g = Throw ValueError_reshape ?g"
    by (rule reshape_fails) (simp add: NDOF_def NL_def NR_def five_demo_def demo_def)
  have "chunk_loop (Suc 4) 0 ?f = Raised ValueError_reshape ?g"
    unfolding s unfolding c(1) v unfolding c a by (simp only: sum.case p flow.case)
  then show ?thesis
    unfolding postProcess_loop [OF h g] n by simp
qed

lemma angular_grid_Inr:
  "real n * d \<noteq> 0 \<Longrightarrow> angular_grid n d = Inr (frequency_grid n d)"
  by (simp add: angular_grid_def rfftfreq_def frequency_grid_def)

lemma angular_grid_InrD:
  "angular_grid n d = Inr oms \<Longrightarrow> real n * d \<noteq> 0 \<and> oms = frequency_grid n d"
  by (auto simp: angular_grid_def rfftfreq_def frequency_grid_def split: if_splits)

lemma length_frequency_grid [simp]: "length (frequency_grid L dt) = L div 2 + 1"
  by (simp add: frequency_grid_def)





text \<open>
  A short first read of a single time step: the grid rebuilt for one sample has one bin,
  and \<^verbatim>\<open>self.oms_fft[1]\<close> of line 428 raises \<^verbatim>\<open>IndexError\<close>; the chunk count is left as
  requested. So the short first chunk needs two time steps at least.
\<close>

lemma chunk_curves_one_bin:
  assumes "length velArray = NDOF f * chunkSize f"
    and "ids_fit (ids_L f) (NDOF f)" and "ids_fit (ids_R f) (NDOF f)"
    and "\<not> (in_plane f \<and> out_of_plane f)"
    and "Kij_fits f"
    and "length (oms_fft f) < 2"
  shows "\<exists>f2. chunk_curves velArray f = Failed IndexError f2 \<and>
           NChunks f2 = NChunks f \<and> SHC_smooth f2 = SHC_smooth f"
proof -
  define vf where "vf = scaled_fft (sampleTimestep f) (chunk_rows velArray (NDOF f) (chunkSize f))"
  define f1 where "f1 = f\<lparr>velsL := gather vf (ids_L f), velsR := gather vf (ids_R f)\<rparr>"
  define f2 where "f2 = f1\<lparr>Kij := projected f1 (Kij f1), velsL := projected f1 (velsL f1), velsR := projected f1 (velsR f1)\<rparr>"
  have t: "transform_chunk velArray f = Done f1"
    using assms(1-3) unfolding f1_def vf_def by (rule transform_chunk_Done)
  have p: "(if in_plane f1 \<or> out_of_plane f1 then differ_direction f1 else Done f1) = Done f2"
    unfolding f2_def using assms(4) by (intro differ_direction_Done) (simp add: f1_def)
  have "Kij_fits f2"
    using assms(5) unfolding f2_def f1_def by (simp add: Kij_fits_projected)
  then obtain SHC_orig where s: "spectral_current f2 = Inr SHC_orig"
    by (simp add: spectral_current_def)
  have "length (oms_fft f2) < 2" using assms(6) by (simp add: f2_def f1_def)
  then have "chunk_curves velArray f = Failed IndexError f2"
    unfolding chunk_curves_def t using p s by (simp del: One_nat_def)
  moreover have "NChunks f2 = NChunks f" "SHC_smooth f2 = SHC_smooth f"
    by (simp_all add: f2_def f1_def)
  ultimately show ?thesis by blast
qed

lemma short_first_one_step_raises:
  assumes "header_ok s file"
    and "0 < NChunks s"
    and "length (velocities file) = NDOF s"
    and "NDOF s < chunkSize s * NDOF s"
    and "ids_fit (ids_L s) (NDOF s)" and "ids_fit (ids_R s) (NDOF s)"
    and "\<not> (in_plane s \<and> out_of_plane s)"
    and "length (Kij s) = 3 * NL s" and "list_all (\<lambda>row. length row = 3 * NR s) (Kij s)"
    and "sampleTimestep s \<noteq> 0"
  shows "\<not> is_Done (postProcess s file) \<and> raised (postProcess s file) = IndexError \<and>
         NChunks (final (postProcess s file)) = NChunks s"
proof -
  let ?vs = "velocities file"
  let ?c = "chunkSize s * NDOF s"
  let ?dt = "sampleTimestep s"
  let ?oms = "frequency_grid (chunkSize s) ?dt"
  let ?f = "start_loop (open_file s file) ?oms"
  let ?oms' = "frequency_grid 1 ?dt"
  have ndof: "0 < NDOF s" using assms(4) by (cases "NDOF s") simp_all
  have lt: "length ?vs < ?c" using assms(3,4) by simp
  then have tk: "take ?c ?vs = ?vs" and dr: "drop ?c ?vs = []" by simp_all
  have ne: "?vs \<noteq> []" using assms(3) ndof by (cases ?vs) simp_all
  have L: "length ?vs div NDOF s = 1" using assms(3) ndof by simp
  have cs: "0 < chunkSize s" using assms(4) by (cases "chunkSize s") simp_all
  have grid0: "angular_grid (chunkSize s) ?dt = Inr ?oms"
    using assms(10) cs by (intro angular_grid_Inr) simp
  have grid: "angular_grid 1 ?dt = Inr ?oms'"
    using assms(10) by (intro angular_grid_Inr) simp
  define fx where "fx = ?f\<lparr>fid := [], chunkSize := 1, exitFlag := True, oms_fft := ?oms', Nfreqs := length ?oms'\<rparr>"
  have fxf: "NDOF fx = NDOF s" "chunkSize fx = 1" "ids_L fx = ids_L s" "ids_R fx = ids_R s"
    "in_plane fx = in_plane s" "out_of_plane fx = out_of_plane s" "oms_fft fx = ?oms'"
    "Kij fx = Kij s" "NChunks fx = NChunks s"
    unfolding fx_def by (simp_all add: NDOF_def NL_def NR_def)
  have "\<exists>f2. chunk_curves ?vs fx = Failed IndexError f2 \<and>
           NChunks f2 = NChunks fx \<and> SHC_smooth f2 = SHC_smooth fx"
  proof (rule chunk_curves_one_bin)
    show "length ?vs = NDOF fx * chunkSize fx" using assms(3) by (simp add: fxf)
    show "ids_fit (ids_L fx) (NDOF fx)" "ids_fit (ids_R fx) (NDOF fx)"
      using assms(5,6) by (simp_all add: fxf)
    show "\<not> (in_plane fx \<and> out_of_plane fx)" using assms(7) by (simp add: fxf)
    show "Kij_fits fx"
      using assms(8,9) by (simp add: Kij_fits_def fxf NL_def NR_def)
    show "length (oms_fft fx) < 2" by (simp add: fxf)
  qed
  then obtain f2 where cc: "chunk_curves ?vs fx = Failed IndexError f2" and f2: "NChunks f2 = NChunks s"
    by (auto simp: fxf)
  have pc: "process_chunk 0 ?vs fx = Throw IndexError f2"
    using cc by (simp add: process_chunk_def)
  obtain n where n: "nat (NChunks s) = Suc n"
    using assms(2) by (cases "nat (NChunks s)") auto
  have e1: "take (chunkSize ?f * NDOF ?f) (fid ?f) = ?vs"
    and e2: "drop (chunkSize ?f * NDOF ?f) (fid ?f) = []"
    and e3: "length ?vs div NDOF ?f = 1"
    and e4: "angular_grid 1 (sampleTimestep ?f) = Inr ?oms'"
    using tk dr L grid by simp_all
  have "chunk_loop (Suc n) 0 ?f =
     (case angular_grid (length (take (chunkSize ?f * NDOF ?f) (fid ?f)) div NDOF ?f) (sampleTimestep ?f) of
        Inl e \<Rightarrow> Raised e (?f\<lparr>fid := drop (chunkSize ?f * NDOF ?f) (fid ?f),
                 chunkSize := length (take (chunkSize ?f * NDOF ?f) (fid ?f)) div NDOF ?f, exitFlag := True\<rparr>)
      | Inr oms \<Rightarrow>
          (case process_chunk 0 (take (chunkSize ?f * NDOF ?f) (fid ?f))
                  (?f\<lparr>fid := drop (chunkSize ?f * NDOF ?f) (fid ?f),
                     chunkSize := length (take (chunkSize ?f * NDOF ?f) (fid ?f)) div NDOF ?f,
                     exitFlag := True, oms_fft := oms, Nfreqs := length oms\<rparr>) of
             Throw e f3 \<Rightarrow> Raised e f3
           | Break f3 \<Rightarrow> Done f3
           | Continue f3 \<Rightarrow> chunk_loop n (Suc 0) f3))"
  proof (rule chunk_loop_short_first)
    show "take (chunkSize ?f * NDOF ?f) (fid ?f) \<noteq> []"
      using ne lt by auto
    show "length (take (chunkSize ?f * NDOF ?f) (fid ?f)) \<noteq> chunkSize ?f * NDOF ?f"
      using lt by simp
  qed
  also have "\<dots> = (case process_chunk 0 ?vs fx of
             Throw e f3 \<Rightarrow> Raised e f3
           | Break f3 \<Rightarrow> Done f3
           | Continue f3 \<Rightarrow> chunk_loop n (Suc 0) f3)"
    unfolding e1 e2 unfolding e3 e4 fx_def by (simp only: sum.case)
  also have "\<dots> = Raised IndexError f2" unfolding pc by simp
  finally have loop: "chunk_loop (nat (NChunks s)) 0 ?f = Raised IndexError f2" unfolding n .
  have "postProcess s file = Raised IndexError f2"
    unfolding postProcess_loop [OF assms(1) grid0] loop by simp
  then show ?thesis using f2 by simp
qed

lemma one_step_first_read_raises:
  "\<not> is_Done (postProcess five_demo one_step) \<and>
   raised (postProcess five_demo one_step) = IndexError \<and>
   NChunks (final (postProcess five_demo one_step)) = 5"
proof -
  have h: "header_ok five_demo one_step"
    unfolding five_demo_def one_step_def by (rule demo_header)
  have n: "NChunks five_demo = 5" "NDOF five_demo = 6" "chunkSize five_demo = 4"
    "sampleTimestep five_demo = 1"
    by (simp_all add: five_demo_def demo_def NDOF_def NL_def NR_def)
  have l: "length (velocities one_step) = NDOF five_demo"
    by (simp add: one_step_def demo_file_def n)
  have i: "ids_fit (ids_L five_demo) (NDOF five_demo)" "ids_fit (ids_R five_demo) (NDOF five_demo)"
    "\<not> (in_plane five_demo \<and> out_of_plane five_demo)"
    "length (Kij five_demo) = 3 * NL five_demo"
    "list_all (\<lambda>row. length row = 3 * NR five_demo) (Kij five_demo)"
    by (simp_all add: five_demo_def demo_def ids_fit_def NDOF_def NL_def NR_def)
  have p: "0 < NChunks five_demo" "NDOF five_demo < chunkSize five_demo * NDOF five_demo"
    "sampleTimestep five_demo \<noteq> 0"
    by (simp_all add: n)
  show ?thesis
    using short_first_one_step_raises [OF h p(1) l p(2) i p(3)] by (simp add: n)
qed




subsection \<open>The grid has \<open>chunkSize div 2 + 1\<close> bins whenever a chunk is processed\<close>

lemma start_loop_grid:
  assumes "angular_grid (chunkSize s) (sampleTimestep s) = Inr oms"
  shows "Nfreqs (start_loop (open_file s file) oms) = chunkSize (start_loop (open_file s file) oms) div 2 + 1"
    and "oms_fft (start_loop (open_file s file) oms) = frequency_grid (chunkSize s) (sampleTimestep s)"
  using angular_grid_InrD [OF assms] by simp_all

lemma short_first_grid:
  assumes "angular_grid (length (take (chunkSize s * NDOF s) (velocities file)) div NDOF s)
             (sampleTimestep s) = Inr oms'"
  shows "Nfreqs (short_first_frame s file oms oms') = chunkSize (short_first_frame s file oms oms') div 2 + 1"
  using angular_grid_InrD [OF assms] by (simp add: short_first_frame_def)

lemma process_chunk_grid:
  assumes "process_chunk k velArray f = Continue f3"
  shows "Nfreqs f3 = Nfreqs f \<and> chunkSize f3 = chunkSize f \<and> oms_fft f3 = oms_fft f"
proof (cases "chunk_curves velArray f")
  case (Curves f2 SHC SHC_orig)
  note fr = chunk_curves_frame(1) [OF Curves]
  have "time_average k SHC SHC_orig f2 = Continue f3"
    using assms Curves by (simp add: process_chunk_def)
  then have "Nfreqs f3 = Nfreqs f2 \<and> chunkSize f3 = chunkSize f2 \<and> oms_fft f3 = oms_fft f2"
    by (auto simp: time_average_def split: if_splits sum.splits)
  then show ?thesis unfolding fr by simp
next
  case (Failed e f2)
  then show ?thesis using assms by (simp add: process_chunk_def)
qed

subsection \<open>The error estimate when the chunk count is the number of chunks folded in\<close>

lemma map_sqrt_divide:
  "map (\<lambda>v. sqrt v / sqrt n) (map2 g xs ys) = map2 (\<lambda>a b. sqrt (g a b / n)) xs ys"
  by (induction xs ys rule: list_induct2') (simp_all add: real_sqrt_divide)

lemma standard_error_formula:
  assumes "ready f" and "1 < NChunks f"
  shows "SHC_error (final (error_estimate f)) =
     Some (map2 (\<lambda>m2 m. sqrt ((real_of_int (NChunks f) / (real_of_int (NChunks f) - 1)) * (m2 - m ^ 2)
                               / real_of_int (NChunks f)))
             (SHC_smooth2 f) (SHC_smooth f))"
  unfolding error_estimate_ready [OF assms(1)] using assms(2)
  by (simp only: if_True outcome.sel map_sqrt_divide, simp)

lemma all_chunks_read_error:
  assumes "header_ok s file"
    and "angular_grid (chunkSize s) (sampleTimestep s) = Inr oms"
    and "ready (start_loop (open_file s file) oms)"
    and "0 < chunkSize s * NDOF s"
    and "nat (NChunks s) * (chunkSize s * NDOF s) \<le> length (velocities file)"
  shows "is_Done (postProcess s file) \<and> NChunks (final (postProcess s file)) = NChunks s \<and>
         (1 < NChunks s \<longrightarrow>
            SHC_error (final (postProcess s file)) =
              Some (map2 (\<lambda>m2 m. sqrt ((real_of_int (NChunks s) / (real_of_int (NChunks s) - 1)) * (m2 - m ^ 2)
                               / real_of_int (NChunks s)))
                     (SHC_smooth2 (final (postProcess s file))) (SHC_smooth (final (postProcess s file))))) \<and>
         (NChunks s \<le> 1 \<longrightarrow> SHC_error (final (postProcess s file)) = None)"
proof -
  from postProcess_all [OF assms] obtain f1 where
    f1: "ready f1" "NChunks f1 = NChunks s" "postProcess s file = error_estimate f1"
    by blast
  have d: "is_Done (error_estimate f1)" "NChunks (final (error_estimate f1)) = NChunks f1"
    "SHC_smooth (final (error_estimate f1)) = SHC_smooth f1"
    "SHC_smooth2 (final (error_estimate f1)) = SHC_smooth2 f1"
    unfolding error_estimate_ready [OF f1(1)] by simp_all
  have n: "NChunks s \<le> 1 \<Longrightarrow> SHC_error (final (error_estimate f1)) = None"
    unfolding error_estimate_ready [OF f1(1)] using f1(2) by simp
  show ?thesis
    unfolding f1(3) using d n standard_error_formula [OF f1(1)] f1(2) by simp
qed

end
